theory Spec2Isabelle
  imports Main "HOL-Library.Multiset"
begin

section \<open>Python values\<close>

text \<open>
  The exceptions the modelled code can meet. Every \<^verbatim>\<open>raise\<close> of the source or of a
  library call is a value \<open>Inl e\<close> of a sum type; \<open>Inr\<close> is a normal return.
\<close>

datatype pyexc =
    FileNotFoundError | OSError | UnicodeDecodeError | JSONDecodeError
  | IndexError | KeyError | TypeError | CalledProcessError

text \<open>
  What \<^verbatim>\<open>json.loads\<close> returns: \<^verbatim>\<open>None\<close>, a bool, an int, a str, a list or a
  dict with str keys (kept as an association list in insertion order, keys distinct).
  JSON numbers are integers here, as in the export of the coverage tool; a number with a
  fraction or an exponent is not modelled.
\<close>

datatype json =
    JNull | JBool bool | JInt int | JStr string
  | JList "json list" | JObj "(string \<times> json) list"

text \<open>Sequencing of calls that may raise.\<close>

definition and_then :: "pyexc + 'a \<Rightarrow> ('a \<Rightarrow> pyexc + 'b) \<Rightarrow> pyexc + 'b" where
  "and_then r f = (case r of Inl e \<Rightarrow> Inl e | Inr v \<Rightarrow> f v)"

text \<open>\<^verbatim>\<open>v[key]\<close> for a str key: only a dict accepts it.\<close>

fun subscript_key :: "json \<Rightarrow> string \<Rightarrow> pyexc + json" where
  "subscript_key (JObj kvs) k = (case map_of kvs k of None \<Rightarrow> Inl KeyError | Some v \<Rightarrow> Inr v)"
| "subscript_key _ k = Inl TypeError"

text \<open>
  \<^verbatim>\<open>v[i]\<close> for an int index; a negative index counts from the end. A dict decoded
  from JSON has str keys only, so an int is never one of its keys.
\<close>

definition list_index :: "'a list \<Rightarrow> int \<Rightarrow> pyexc + 'a" where
  "list_index xs i =
     (if 0 \<le> i \<and> i < int (length xs) then Inr (xs ! nat i)
      else if i < 0 \<and> - i \<le> int (length xs) then Inr (xs ! nat (int (length xs) + i))
      else Inl IndexError)"

fun subscript_index :: "json \<Rightarrow> int \<Rightarrow> pyexc + json" where
  "subscript_index (JList xs) i = list_index xs i"
| "subscript_index (JStr s) i = and_then (list_index s i) (\<lambda>c. Inr (JStr [c]))"
| "subscript_index (JObj kvs) i = Inl KeyError"
| "subscript_index _ i = Inl TypeError"

text \<open>
  \<^verbatim>\<open>for x in v\<close>: a list gives its elements, a str its characters, a dict its keys;
  anything else is not iterable.
\<close>

fun iterate :: "json \<Rightarrow> pyexc + json list" where
  "iterate (JList xs) = Inr xs"
| "iterate (JStr s) = Inr (map (\<lambda>c. JStr [c]) s)"
| "iterate (JObj kvs) = Inr (map (\<lambda>kv. JStr (fst kv)) kvs)"
| "iterate _ = Inl TypeError"

text \<open>
  \<^verbatim>\<open>v != 0\<close> and \<^verbatim>\<open>v == 0\<close>: \<^verbatim>\<open>False\<close> equals 0, \<^verbatim>\<open>True\<close> does not, and
  no \<^verbatim>\<open>None\<close>, str, list or dict equals 0.
\<close>

fun ne_zero :: "json \<Rightarrow> bool" where
  "ne_zero (JInt i) = (i \<noteq> 0)"
| "ne_zero (JBool b) = b"
| "ne_zero _ = True"

definition eq_zero :: "json \<Rightarrow> bool" where
  "eq_zero v = (\<not> ne_zero v)"

text \<open>
  The members of a Python set are compared with \<^verbatim>\<open>==\<close>, under which \<^verbatim>\<open>True\<close> is 1
  and \<^verbatim>\<open>False\<close> is 0; a list or a dict cannot be hashed. A \<open>pykey\<close> is a hashable
  value up to \<^verbatim>\<open>==\<close>, and a region is a tuple of them.
\<close>

datatype pykey = KNone | KInt int | KStr string

type_synonym region = "pykey list"

fun hash_key :: "json \<Rightarrow> pyexc + pykey" where
  "hash_key JNull = Inr KNone"
| "hash_key (JBool b) = Inr (KInt (if b then 1 else 0))"
| "hash_key (JInt i) = Inr (KInt i)"
| "hash_key (JStr s) = Inr (KStr s)"
| "hash_key _ = Inl TypeError"

fun hash_keys :: "json list \<Rightarrow> pyexc + region" where
  "hash_keys [] = Inr []"
| "hash_keys (v # vs) =
     and_then (hash_key v) (\<lambda>k. and_then (hash_keys vs) (\<lambda>ks. Inr (k # ks)))"

text \<open>
  \<^verbatim>\<open>tuple(v[:n])\<close>, hashed as a set member: the first \<open>n\<close> elements of a list or
  characters of a str; a dict cannot be sliced.
\<close>

fun tuple_prefix :: "json \<Rightarrow> nat \<Rightarrow> pyexc + region" where
  "tuple_prefix (JList xs) n = hash_keys (take n xs)"
| "tuple_prefix (JStr s) n = Inr (map (\<lambda>c. KStr [c]) (take n s))"
| "tuple_prefix _ n = Inl TypeError"

section \<open>Paths and files\<close>

text \<open>
  \<^verbatim>\<open>os.path.join\<close> on POSIX (and \<^verbatim>\<open>posixpath.join\<close>): a component that starts with
  \<open>/\<close> replaces what came before; otherwise it is appended after a single \<open>/\<close>.
\<close>

definition join2 :: "string \<Rightarrow> string \<Rightarrow> string" where
  "join2 path b =
     (if b \<noteq> [] \<and> hd b = CHR ''/'' then b
      else if path = [] \<or> last path = CHR ''/'' then path @ b
      else path @ ''/'' @ b)"

definition path_join :: "string \<Rightarrow> string list \<Rightarrow> string" where
  "path_join a ps = foldl join2 a ps"

text \<open>
  A file as \<^verbatim>\<open>open(path)\<close> and \<^verbatim>\<open>readlines()\<close> find it: absent, not readable
  (with the exception raised: \<^verbatim>\<open>OSError\<close> for a directory or a file without
  permission, \<^verbatim>\<open>UnicodeDecodeError\<close> for bytes that are no text), or a text.
\<close>

datatype pyfile = Absent | Unreadable pyexc | Text string

type_synonym filesystem = "string \<Rightarrow> pyfile"

text \<open>
  Text mode reads with universal newlines: \<open>\r\n\<close> and a lone \<open>\r\<close> arrive as
  \<open>\n\<close>. \<^verbatim>\<open>readlines()\<close> cuts after every \<open>\n\<close> and keeps it; an empty file
  has no line.
\<close>

fun universal_newlines :: "string \<Rightarrow> string" where
  "universal_newlines [] = []"
| "universal_newlines [c] = (if c = CHR 0x0D then [CHR 0x0A] else [c])"
| "universal_newlines (c # d # cs) =
     (if c = CHR 0x0D \<and> d = CHR 0x0A then CHR 0x0A # universal_newlines cs
      else if c = CHR 0x0D then CHR 0x0A # universal_newlines (d # cs)
      else c # universal_newlines (d # cs))"

fun keepends :: "string \<Rightarrow> string list" where
  "keepends [] = []"
| "keepends (c # cs) =
     (if c = CHR 0x0A then [c] # keepends cs
      else (case keepends cs of [] \<Rightarrow> [[c]] | l # ls \<Rightarrow> (c # l) # ls))"

definition readlines :: "string \<Rightarrow> string list" where
  "readlines content = keepends (universal_newlines content)"

text \<open>
  \<^verbatim>\<open>get_coverage_infomation(coverage_summary_file)\<close>: opens the file and returns
  \<^verbatim>\<open>json.loads(summary.readlines()[-1])\<close>. The decoder \<^verbatim>\<open>json.loads\<close> is Python's
  and is a parameter here.
\<close>

definition get_coverage_infomation ::
  "(string \<Rightarrow> pyexc + json) \<Rightarrow> filesystem \<Rightarrow> string \<Rightarrow> pyexc + json" where
  "get_coverage_infomation loads fs coverage_summary_file =
     (case fs coverage_summary_file of
        Absent \<Rightarrow> Inl FileNotFoundError
      | Unreadable e \<Rightarrow> Inl e
      | Text content \<Rightarrow> and_then (list_index (readlines content) (- 1)) loads)"

section \<open>Coverage keys\<close>

text \<open>
  \<^verbatim>\<open>get_fuzzer_benchmark_key(fuzzer, benchmark)\<close> returns
  \<^verbatim>\<open>fuzzer + ' ' + benchmark\<close>.
\<close>

definition get_fuzzer_benchmark_key :: "string \<Rightarrow> string \<Rightarrow> string" where
  "get_fuzzer_benchmark_key fuzzer benchmark = fuzzer @ '' '' @ benchmark"

section \<open>Staging the coverage binaries\<close>

text \<open>
  \<^verbatim>\<open>get_coverage_archive_name\<close>, \<^verbatim>\<open>get_experiment_filestore_path\<close> (the
  environment variable \<^verbatim>\<open>EXPERIMENT_FILESTORE\<close> or the default bucket) and
  \<^verbatim>\<open>get_benchmark_archive\<close>.
\<close>

definition get_coverage_archive_name :: "string \<Rightarrow> string" where
  "get_coverage_archive_name benchmark = ''coverage-build-'' @ benchmark @ ''.tar.gz''"

definition get_experiment_filestore_path :: "(string \<times> string) list \<Rightarrow> string \<Rightarrow> string" where
  "get_experiment_filestore_path environ experiment_name =
     path_join (case map_of environ ''EXPERIMENT_FILESTORE'' of
                  Some experiment_filestore \<Rightarrow> experiment_filestore
                | None \<Rightarrow> ''gs://fuzzbench-data'')
       [experiment_name]"

definition get_benchmark_archive :: "(string \<times> string) list \<Rightarrow> string \<Rightarrow> string \<Rightarrow> string" where
  "get_benchmark_archive environ experiment_name benchmark =
     path_join (get_experiment_filestore_path environ experiment_name)
       [''coverage-binaries'', get_coverage_archive_name benchmark]"

text \<open>
  The calls \<^verbatim>\<open>set_up_coverage_file\<close> makes on the object store and the local disk:
  \<^verbatim>\<open>filestore_utils.ls\<close>, \<^verbatim>\<open>filesystem.create_directory\<close>,
  \<^verbatim>\<open>filestore_utils.cp\<close>, \<^verbatim>\<open>tarfile.open\<close>, \<^verbatim>\<open>extractall\<close> and
  \<^verbatim>\<open>os.remove\<close>. The function is modelled by the calls it makes, in order, and the
  exception that ended it, if any. \<^verbatim>\<open>ls\<close> is called with \<^verbatim>\<open>must_exist=False\<close>
  and reports a missing path by its exit code; each other call may raise.
\<close>

datatype call =
    Ls string | CreateDirectory string | Cp string string
  | TarOpen string | ExtractAll string string | Remove string

fun perform :: "(call \<Rightarrow> pyexc option) \<Rightarrow> call list \<Rightarrow> call list \<times> pyexc option" where
  "perform raises [] = ([], None)"
| "perform raises (c # cs) =
     (case raises c of
        Some e \<Rightarrow> ([c], Some e)
      | None \<Rightarrow> (case perform raises cs of (made, r) \<Rightarrow> (c # made, r)))"

text \<open>
  The loop of \<^verbatim>\<open>set_up_coverage_file\<close> over the experiments, with its
  \<^verbatim>\<open>break\<close> after the first archive found.
\<close>

fun set_up_loop ::
  "(string \<times> string) list \<Rightarrow> (string \<Rightarrow> int) \<Rightarrow> (call \<Rightarrow> pyexc option)
     \<Rightarrow> string \<Rightarrow> string \<Rightarrow> string list \<Rightarrow> call list \<times> pyexc option" where
  "set_up_loop environ ls raises report_dir benchmark [] = ([], None)"
| "set_up_loop environ ls raises report_dir benchmark (experiment # experiment_names) =
     (let archive_filestore_path = get_benchmark_archive environ experiment benchmark;
          archive_exist = (ls archive_filestore_path = 0)
      in if archive_exist then
           (let benchmark_report_dir = path_join report_dir [benchmark];
                archive_name = get_coverage_archive_name benchmark;
                archive_path = path_join benchmark_report_dir [archive_name]
            in case perform raises
                      [CreateDirectory benchmark_report_dir,
                       Cp archive_filestore_path benchmark_report_dir,
                       TarOpen archive_path,
                       ExtractAll archive_path benchmark_report_dir,
                       Remove archive_path] of
                 (made, r) \<Rightarrow> (Ls archive_filestore_path # made, r))
         else
           (case set_up_loop environ ls raises report_dir benchmark experiment_names of
              (made, r) \<Rightarrow> (Ls archive_filestore_path # made, r)))"

definition set_up_coverage_file ::
  "(string \<times> string) list \<Rightarrow> (string \<Rightarrow> int) \<Rightarrow> (call \<Rightarrow> pyexc option)
     \<Rightarrow> string list \<Rightarrow> string \<Rightarrow> string \<Rightarrow> call list \<times> pyexc option" where
  "set_up_coverage_file environ ls raises experiment_names report_dir benchmark =
     set_up_loop environ ls raises report_dir benchmark experiment_names"

section \<open>Covered regions of one trial\<close>

text \<open>
  \<^verbatim>\<open>class TrialCoverage\<close>. The constructor takes the trial directory and the work
  directory from \<^verbatim>\<open>exp_utils.get_trial_dir\<close> and \<^verbatim>\<open>exp_utils.get_work_dir\<close>, which
  are parameters here; the logger is the list of error messages a method returns.
\<close>

record trial_coverage =
  tc_fuzzer :: string
  tc_benchmark :: string
  tc_trial_num :: int
  benchmark_fuzzer_trial_dir :: string
  work_dir :: string
  measurement_dir :: string
  tc_report_dir :: string
  profdata_file :: string
  cov_summary_file :: string

definition TrialCoverage ::
  "(string \<Rightarrow> string \<Rightarrow> int \<Rightarrow> string) \<Rightarrow> string \<Rightarrow> string \<Rightarrow> string \<Rightarrow> int \<Rightarrow> trial_coverage" where
  "TrialCoverage get_trial_dir get_work_dir fuzzer benchmark trial_num =
     (let trial_dir = get_trial_dir fuzzer benchmark trial_num;
          m_dir = path_join get_work_dir [''measurement-folders'', trial_dir];
          r_dir = path_join m_dir [''reports'']
      in \<lparr> tc_fuzzer = fuzzer, tc_benchmark = benchmark, tc_trial_num = trial_num,
           benchmark_fuzzer_trial_dir = trial_dir, work_dir = get_work_dir,
           measurement_dir = m_dir, tc_report_dir = r_dir,
           profdata_file = path_join r_dir [''data.profdata''],
           cov_summary_file = path_join r_dir [''cov_summary.json''] \<rparr>)"

text \<open>
  The body of the inner loop of \<^verbatim>\<open>get_current_covered_regions\<close>:
  \<^verbatim>\<open>if region[hit_index] != 0 and region[type_index] == 0:
      covered_regions.add(tuple(region[:hit_index]))\<close>
  with \<^verbatim>\<open>hit_index = 4\<close> and \<^verbatim>\<open>type_index = -1\<close>; \<^verbatim>\<open>and\<close> evaluates its
  right side only when the left one holds.
\<close>

definition region_step :: "json \<Rightarrow> region set \<Rightarrow> pyexc + region set" where
  "region_step region covered_regions =
     and_then (subscript_index region 4) (\<lambda>hit.
       if ne_zero hit then
         and_then (subscript_index region (- 1)) (\<lambda>kind.
           if eq_zero kind
           then and_then (tuple_prefix region 4) (\<lambda>t. Inr (insert t covered_regions))
           else Inr covered_regions)
       else Inr covered_regions)"

text \<open>
  The two loops. An exception leaves the loops at once; the set built so far stays in
  \<^verbatim>\<open>covered_regions\<close>, so each loop returns the exception, if any, and the set.
\<close>

fun scan_regions :: "json list \<Rightarrow> region set \<Rightarrow> pyexc option \<times> region set" where
  "scan_regions [] covered_regions = (None, covered_regions)"
| "scan_regions (region # regions) covered_regions =
     (case region_step region covered_regions of
        Inl e \<Rightarrow> (Some e, covered_regions)
      | Inr covered_regions' \<Rightarrow> scan_regions regions covered_regions')"

fun scan_functions :: "json list \<Rightarrow> region set \<Rightarrow> pyexc option \<times> region set" where
  "scan_functions [] covered_regions = (None, covered_regions)"
| "scan_functions (function_data # functions_data) covered_regions =
     (case and_then (subscript_key function_data ''regions'') iterate of
        Inl e \<Rightarrow> (Some e, covered_regions)
      | Inr regions \<Rightarrow>
          (case scan_regions regions covered_regions of
             (Some e, covered_regions') \<Rightarrow> (Some e, covered_regions')
           | (None, covered_regions') \<Rightarrow> scan_functions functions_data covered_regions'))"

text \<open>
  \<^verbatim>\<open>coverage_info = get_coverage_infomation(self.cov_summary_file)
  functions_data = coverage_info['data'][0]['functions']\<close>
  and the start of the iteration over \<^verbatim>\<open>functions_data\<close>.
\<close>

definition functions_data ::
  "(string \<Rightarrow> pyexc + json) \<Rightarrow> filesystem \<Rightarrow> string \<Rightarrow> pyexc + json list" where
  "functions_data loads fs path =
     and_then (get_coverage_infomation loads fs path) (\<lambda>coverage_info.
     and_then (subscript_key coverage_info ''data'') (\<lambda>d.
     and_then (subscript_index d 0) (\<lambda>d0.
     and_then (subscript_key d0 ''functions'') iterate)))"

text \<open>The body of the \<^verbatim>\<open>try\<close>: the exception that ended it, if any, and the set.\<close>

definition extract_regions ::
  "(string \<Rightarrow> pyexc + json) \<Rightarrow> filesystem \<Rightarrow> string \<Rightarrow> pyexc option \<times> region set" where
  "extract_regions loads fs path =
     (case functions_data loads fs path of
        Inl e \<Rightarrow> (Some e, {})
      | Inr fds \<Rightarrow> scan_functions fds {})"

text \<open>
  \<^verbatim>\<open>TrialCoverage.get_current_covered_regions\<close>: \<^verbatim>\<open>except Exception\<close> catches
  whatever the body raised and logs one error; the method then returns
  \<^verbatim>\<open>covered_regions\<close>. The result is the set and the error messages logged.
\<close>

definition get_current_covered_regions ::
  "(string \<Rightarrow> pyexc + json) \<Rightarrow> filesystem \<Rightarrow> trial_coverage \<Rightarrow> region set \<times> string list" where
  "get_current_covered_regions loads fs self =
     (case extract_regions loads fs (cov_summary_file self) of
        (None, covered_regions) \<Rightarrow> (covered_regions, [])
      | (Some e, covered_regions) \<Rightarrow>
          (covered_regions, [''Coverage summary json file defective or missing.'']))"

text \<open>A region record of integers as the decoder returns it.\<close>

definition region_json :: "int list \<Rightarrow> json" where
  "region_json r = JList (map JInt r)"

section \<open>The reducer for one fuzzer and benchmark\<close>

text \<open>
  The trial registry: the rows of the \<^verbatim>\<open>Trial\<close> table in the order the query returns
  them. \<^verbatim>\<open>get_trial_ids\<close> keeps the ids of the rows of the experiment, fuzzer and
  benchmark that are not preempted.
\<close>

record trial =
  row_id :: int
  row_experiment :: string
  row_fuzzer :: string
  row_benchmark :: string
  row_preempted :: bool

definition get_trial_ids :: "trial list \<Rightarrow> string \<Rightarrow> string \<Rightarrow> string \<Rightarrow> int list" where
  "get_trial_ids db experiment fuzzer benchmark =
     map row_id (filter (\<lambda>t. row_experiment t = experiment \<and> row_fuzzer t = fuzzer
                            \<and> row_benchmark t = benchmark \<and> \<not> row_preempted t) db)"

text \<open>
  What the module takes from the rest of the program and from the machine:
  \<^verbatim>\<open>exp_utils.get_trial_dir\<close>, \<^verbatim>\<open>exp_utils.get_work_dir\<close>, the helpers behind
  \<^verbatim>\<open>get_coverage_binary\<close>, whether a path can be opened for writing, and
  \<^verbatim>\<open>new_process.execute\<close>, which gives the exit code of the command and its output.
\<close>

record environment =
  get_trial_dir :: "string \<Rightarrow> string \<Rightarrow> int \<Rightarrow> string"
  get_work_dir :: string
  get_coverage_binary :: "string \<Rightarrow> pyexc + string"
  open_for_writing :: "string \<Rightarrow> pyexc option"
  execute :: "string list \<Rightarrow> pyexc + int \<times> string"

text \<open>
  \<^verbatim>\<open>TrialCoverage.generate_summary(cycle, summary_only)\<close>: builds the
  \<^verbatim>\<open>llvm-cov export\<close> command, opens the summary file for writing and runs the command
  with its output going to the file. A non-zero exit code is logged and nothing more, so
  the result is the new file system or the exception of a helper.
\<close>

definition generate_summary ::
  "environment \<Rightarrow> filesystem \<Rightarrow> trial_coverage \<Rightarrow> int \<Rightarrow> bool \<Rightarrow> pyexc + filesystem" where
  "generate_summary env fs self cycle summary_only =
     and_then (get_coverage_binary env (tc_benchmark self)) (\<lambda>coverage_binary.
       let command = [''llvm-cov'', ''export'', ''-format=text'', coverage_binary,
                      ''-instr-profile='' @ profdata_file self]
                     @ (if summary_only then [''-summary-only''] else [])
       in case open_for_writing env (cov_summary_file self) of
            Some e \<Rightarrow> Inl e
          | None \<Rightarrow>
              and_then (execute env command) (\<lambda>(retcode, output).
                Inr (fs (cov_summary_file self := Text output))))"

text \<open>
  A Python dict with str keys, in insertion order: \<^verbatim>\<open>d[k] = v\<close> replaces the value of
  a key that is there and appends a key that is not; \<^verbatim>\<open>d.update(other)\<close> does so for
  every entry of \<open>other\<close>.
\<close>

type_synonym 'v dict = "(string \<times> 'v) list"

fun dict_set :: "'v dict \<Rightarrow> string \<Rightarrow> 'v \<Rightarrow> 'v dict" where
  "dict_set [] k v = [(k, v)]"
| "dict_set ((k', v') # d) k v = (if k' = k then (k, v) # d else (k', v') # dict_set d k v)"

fun dict_update :: "'v dict \<Rightarrow> 'v dict \<Rightarrow> 'v dict" where
  "dict_update d [] = d"
| "dict_update d ((k, v) # other) = dict_update (dict_set d k v) other"

definition dict_get :: "'v dict \<Rightarrow> string \<Rightarrow> pyexc + 'v" where
  "dict_get d k = (case map_of d k of None \<Rightarrow> Inl KeyError | Some v \<Rightarrow> Inr v)"

text \<open>
  The loop of \<^verbatim>\<open>get_covered_region\<close> over the trial ids: a fresh
  \<^verbatim>\<open>TrialCoverage\<close>, \<^verbatim>\<open>generate_summary(0, summary_only=False)\<close>, then
  \<^verbatim>\<open>covered_regions[key] = covered_regions[key].union(new_covered_regions)\<close>.
\<close>

fun measure_trials ::
  "(string \<Rightarrow> pyexc + json) \<Rightarrow> environment \<Rightarrow> string \<Rightarrow> string \<Rightarrow> int list
     \<Rightarrow> region set \<times> filesystem \<Rightarrow> pyexc + region set \<times> filesystem" where
  "measure_trials loads env fuzzer benchmark [] st = Inr st"
| "measure_trials loads env fuzzer benchmark (trial_id # trial_ids) st =
     (let trial_coverage =
            TrialCoverage (get_trial_dir env) (get_work_dir env) fuzzer benchmark trial_id
      in and_then (generate_summary env (snd st) trial_coverage 0 False) (\<lambda>fs'.
           measure_trials loads env fuzzer benchmark trial_ids
             (fst st \<union> fst (get_current_covered_regions loads fs' trial_coverage), fs')))"

text \<open>
  \<^verbatim>\<open>get_covered_region(experiment, fuzzer, benchmark, q)\<close>: the queue is the list of
  the items put on it, oldest first; the result is the queue and the file system it
  leaves, or the exception that ended it before \<^verbatim>\<open>q.put\<close>.
\<close>

definition get_covered_region ::
  "(string \<Rightarrow> pyexc + json) \<Rightarrow> environment \<Rightarrow> trial list \<Rightarrow> filesystem
     \<Rightarrow> string \<Rightarrow> string \<Rightarrow> string \<Rightarrow> region set dict list
     \<Rightarrow> pyexc + region set dict list \<times> filesystem" where
  "get_covered_region loads env db fs experiment fuzzer benchmark q =
     (let key = get_fuzzer_benchmark_key fuzzer benchmark;
          trial_ids = get_trial_ids db experiment fuzzer benchmark
      in and_then (measure_trials loads env fuzzer benchmark trial_ids ({}, fs)) (\<lambda>(regions, fs').
           Inr (q @ [[(key, regions)]], fs')))"

text \<open>
  The task the pool runs for one argument tuple: \<^verbatim>\<open>get_covered_region\<close>, seen from
  the queue. Every task starts from the same file system: the tasks of different pairs
  write the summary files of different trials.
\<close>

definition worker ::
  "(string \<Rightarrow> pyexc + json) \<Rightarrow> environment \<Rightarrow> trial list \<Rightarrow> filesystem
     \<Rightarrow> string \<times> string \<times> string \<Rightarrow> region set dict list \<Rightarrow> pyexc + region set dict list" where
  "worker loads env db fs args q0 =
     (case args of (experiment, fuzzer, benchmark) \<Rightarrow>
        (case get_covered_region loads env db fs experiment fuzzer benchmark q0 of
           Inl e \<Rightarrow> Inl e
         | Inr (q', fs') \<Rightarrow> Inr q'))"

text \<open>
  What a task computes before its \<^verbatim>\<open>q.put\<close>: the union over the trials of the
  pair, or the exception that ended the task.
\<close>

definition covered_by ::
  "(string \<Rightarrow> pyexc + json) \<Rightarrow> environment \<Rightarrow> trial list \<Rightarrow> filesystem
     \<Rightarrow> string \<times> string \<times> string \<Rightarrow> pyexc + region set" where
  "covered_by loads env db fs args =
     (case args of (experiment, fuzzer, benchmark) \<Rightarrow>
        and_then (measure_trials loads env fuzzer benchmark
                    (get_trial_ids db experiment fuzzer benchmark) ({}, fs))
          (\<lambda>st. Inr (fst st)))"

section \<open>The aggregation engine\<close>

text \<open>\<^verbatim>\<open>s.split(',')\<close>: the pieces between the commas; no comma gives one piece.\<close>

fun split_comma :: "string \<Rightarrow> string list" where
  "split_comma [] = [[]]"
| "split_comma (c # cs) =
     (if c = CHR '','' then [] # split_comma cs
      else (case split_comma cs of [] \<Rightarrow> [[c]] | w # ws \<Rightarrow> (c # w) # ws))"

text \<open>
  The argument tuples given to \<^verbatim>\<open>pool.starmap_async\<close>:
  \<^verbatim>\<open>[(experiment, fuzzer, benchmark, q) for fuzzer in fuzzers for benchmark in benchmarks]\<close>;
  the queue is the one shared queue and is not repeated in each tuple.
\<close>

definition get_covered_region_args ::
  "string \<Rightarrow> string list \<Rightarrow> string list \<Rightarrow> (string \<times> string \<times> string) list" where
  "get_covered_region_args experiment fuzzers benchmarks =
     concat (map (\<lambda>fuzzer. map (\<lambda>benchmark. (experiment, fuzzer, benchmark)) benchmarks) fuzzers)"

text \<open>
  The pool, given by its number of processes (at least one). \<^verbatim>\<open>starmap\<close> and
  \<^verbatim>\<open>starmap_async\<close> cut the list of argument tuples into chunks of
  \<^verbatim>\<open>chunksize\<close> tuples, where
  \<^verbatim>\<open>chunksize, extra = divmod(len(iterable), len(pool) * 4)\<close> and one more when
  \<^verbatim>\<open>extra\<close> is not 0. A worker process runs the tasks of a chunk one after the
  other; when one of them raises, the chunk ends there: its later tasks never run, and
  the pool counts the chunk completed all the same. The number of processes also bounds
  how many chunks run at a time; the model leaves that bound out.
\<close>

definition chunksize :: "nat \<Rightarrow> nat \<Rightarrow> nat" where
  "chunksize pool n =
     (if n = 0 then 0 else n div (pool * 4) + (if n mod (pool * 4) = 0 then 0 else 1))"

definition chunk_start :: "nat \<Rightarrow> nat \<Rightarrow> nat" where
  "chunk_start c i = i - i mod c"

text \<open>The list \<open>xs\<close> with \<open>v\<close> at position \<open>i\<close> and at the later positions of its chunk.\<close>

definition end_chunk :: "'a \<Rightarrow> nat \<Rightarrow> nat \<Rightarrow> 'a list \<Rightarrow> 'a list" where
  "end_chunk v c i xs =
     take i xs @ replicate (min (length xs) (chunk_start c i + c) - i) v
       @ drop (min (length xs) (chunk_start c i + c)) xs"

text \<open>
  The engine and its pool as a transition system. A task of the pool is still to put
  its result (\<open>Todo\<close>), has put it and not yet returned (\<open>HasPut\<close>), or is completed
  (\<open>Done\<close>); \<^verbatim>\<open>result.ready()\<close> holds when every task is completed. The loop of
  \<^verbatim>\<open>get_all_covered_regions\<close> is in \<^verbatim>\<open>q.get\<close> (\<open>Polling\<close>), in the handler of
  \<^verbatim>\<open>queue.Empty\<close> before the test of \<^verbatim>\<open>result.ready()\<close> (\<open>TimedOut\<close>), or past
  the \<^verbatim>\<open>break\<close> (\<open>Exited\<close>).
\<close>

datatype task = Todo "string \<times> string \<times> string" | HasPut | Done

datatype place = Polling | TimedOut | Exited

record engine =
  tasks :: "task list"
  queue :: "region set dict list"
  all_covered_regions :: "region set dict"
  place :: place

text \<open>
  The steps, each atomic. A task can run once the earlier tasks of its chunk are
  completed. \<open>Put i\<close>: task \<open>i\<close> runs \<^verbatim>\<open>get_covered_region\<close> up to and with its
  \<^verbatim>\<open>q.put\<close>. \<open>Finish i\<close>: task \<open>i\<close> returns after its put and is completed; or it
  ends with the exception it raised before putting anything, which completes it and the
  later tasks of its chunk. \<open>Get\<close>: the loop's \<^verbatim>\<open>q.get(timeout=...)\<close> returns the
  oldest item, which \<^verbatim>\<open>all_covered_regions.update\<close> merges, or, the queue being
  empty when the timeout expires, raises \<^verbatim>\<open>queue.Empty\<close>. \<open>Ready\<close>: the handler
  tests \<^verbatim>\<open>result.ready()\<close> and breaks or polls again. The worker is a parameter:
  it maps the arguments and the queue to the queue after the put, or to an exception.
\<close>

datatype event = Put nat | Finish nat | Get | Ready

definition ready :: "engine \<Rightarrow> bool" where
  "ready s = list_all (\<lambda>t. t = Done) (tasks s)"

definition runnable :: "nat \<Rightarrow> engine \<Rightarrow> nat \<Rightarrow> bool" where
  "runnable pool s i =
     list_all (\<lambda>j. tasks s ! j = Done)
       [chunk_start (chunksize pool (length (tasks s))) i ..< i]"

fun step ::
  "(string \<times> string \<times> string \<Rightarrow> region set dict list \<Rightarrow> pyexc + region set dict list)
     \<Rightarrow> nat \<Rightarrow> event \<Rightarrow> engine \<Rightarrow> engine option" where
  "step work pool (Put i) s =
     (if i < length (tasks s) \<and> runnable pool s i then
        (case tasks s ! i of
           Todo args \<Rightarrow>
             (case work args (queue s) of
                Inr q' \<Rightarrow> Some (s\<lparr>tasks := (tasks s)[i := HasPut], queue := q'\<rparr>)
              | Inl e \<Rightarrow> None)
         | _ \<Rightarrow> None)
      else None)"
| "step work pool (Finish i) s =
     (if i < length (tasks s) then
        (case tasks s ! i of
           Todo args \<Rightarrow>
             (case work args (queue s) of
                Inl e \<Rightarrow>
                  (if runnable pool s i
                   then Some (s\<lparr>tasks := end_chunk Done (chunksize pool (length (tasks s))) i
                                               (tasks s)\<rparr>)
                   else None)
              | Inr q' \<Rightarrow> None)
         | HasPut \<Rightarrow> Some (s\<lparr>tasks := (tasks s)[i := Done]\<rparr>)
         | Done \<Rightarrow> None)
      else None)"
| "step work pool Get s =
     (if place s = Polling then
        (case queue s of
           covered_regions # rest \<Rightarrow>
             Some (s\<lparr>queue := rest,
                     all_covered_regions := dict_update (all_covered_regions s) covered_regions\<rparr>)
         | [] \<Rightarrow> Some (s\<lparr>place := TimedOut\<rparr>))
      else None)"
| "step work pool Ready s =
     (if place s = TimedOut
      then Some (s\<lparr>place := (if ready s then Exited else Polling)\<rparr>)
      else None)"

fun run ::
  "(string \<times> string \<times> string \<Rightarrow> region set dict list \<Rightarrow> pyexc + region set dict list)
     \<Rightarrow> nat \<Rightarrow> event list \<Rightarrow> engine \<Rightarrow> engine option" where
  "run work pool [] s = Some s"
| "run work pool (ev # evs) s =
     (case step work pool ev s of None \<Rightarrow> None | Some s' \<Rightarrow> run work pool evs s')"

definition start :: "(string \<times> string \<times> string) list \<Rightarrow> engine" where
  "start args = \<lparr>tasks = map Todo args, queue = [], all_covered_regions = [], place = Polling\<rparr>"

text \<open>
  \<^verbatim>\<open>get_all_covered_regions(experiment_config, pool, q)\<close> along a schedule of steps
  (the queue starts empty):
  the state the schedule leads to, \<open>None\<close> if it asks for a step that cannot be taken.
  Past the \<^verbatim>\<open>break\<close> the function returns \<^verbatim>\<open>all_covered_regions\<close>, each set
  turned into a list of its members in an order Python leaves open; the state keeps the
  sets.
\<close>

definition get_all_covered_regions ::
  "(string \<times> string \<times> string \<Rightarrow> region set dict list \<Rightarrow> pyexc + region set dict list)
     \<Rightarrow> nat \<Rightarrow> event list \<Rightarrow> string dict \<Rightarrow> pyexc + engine option" where
  "get_all_covered_regions work pool schedule experiment_config =
     and_then (dict_get experiment_config ''benchmarks'') (\<lambda>bs.
     and_then (dict_get experiment_config ''fuzzers'') (\<lambda>fs.
     and_then (dict_get experiment_config ''experiment'') (\<lambda>experiment.
       Inr (run work pool schedule
              (start (get_covered_region_args experiment (split_comma fs) (split_comma bs)))))))"

section \<open>The report pipeline\<close>






text \<open>
  The pool at work on the list: which tasks are completed or skipped, the world, and the
  first exception a task raised. A schedule names the tasks in the order in which they
  run. A task can run when it has not run and the earlier tasks of its chunk are
  completed; when it raises, the later tasks of its chunk are skipped.
  \<^verbatim>\<open>starmap\<close> returns when every task is completed or skipped, and raises the
  exception kept, if there is one.
\<close>

record 'w reports =
  finished :: "bool list"
  world :: 'w
  raised :: "pyexc option"







text \<open>
  For the proofs about the engine: the tasks that have put their result, and what holds
  of every state a run reaches when each task \<open>a\<close> puts the single entry
  \<open>(key a, val a)\<close>. Every item on the queue and every entry of the map is the result
  of a task that has put it, the result of such a task is on the queue or its key is in
  the map, the keys of the map are distinct, and past the \<^verbatim>\<open>break\<close> every task is
  completed.
\<close>

definition produced :: "(string \<times> string \<times> string) list \<Rightarrow> engine \<Rightarrow> nat set" where
  "produced A s = {i. i < length A \<and> tasks s ! i \<noteq> Todo (A ! i)}"

definition engine_inv ::
  "(string \<times> string \<times> string \<Rightarrow> string) \<Rightarrow> (string \<times> string \<times> string \<Rightarrow> region set)
     \<Rightarrow> (string \<times> string \<times> string) list \<Rightarrow> engine \<Rightarrow> bool" where
  "engine_inv key val A s \<longleftrightarrow>
     length (tasks s) = length A
     \<and> (\<forall>i<length A. tasks s ! i = Todo (A ! i) \<or> tasks s ! i = HasPut \<or> tasks s ! i = Done)
     \<and> set (queue s) \<subseteq> (\<lambda>i. [(key (A ! i), val (A ! i))]) ` produced A s
     \<and> set (all_covered_regions s) \<subseteq> (\<lambda>i. (key (A ! i), val (A ! i))) ` produced A s
     \<and> (\<forall>i \<in> produced A s. [(key (A ! i), val (A ! i))] \<in> set (queue s)
                               \<or> key (A ! i) \<in> fst ` set (all_covered_regions s))
     \<and> distinct (map fst (all_covered_regions s))
     \<and> (place s = Exited \<longrightarrow> ready s)"

text \<open>
  The covered regions as the specification words them: of the region tuples given, those
  whose fifth field is not 0 and whose last field is 0, each cut to its first four fields.
\<close>

definition hit_code_regions :: "int list set \<Rightarrow> region set" where
  "hit_code_regions R = (\<lambda>r. map KInt (take 4 r)) ` {r \<in> R. r ! 4 \<noteq> 0 \<and> last r = 0}"

subsection \<open>A sample experiment\<close>

text \<open>
  The summaries. In the full one, the first function has a region hit twice over (two
  records with one position), a region never hit and a hit region of another kind; the
  second function has one hit code region. The short one has the first region alone. The
  defective one is the full one with a third function whose only region record has two
  fields.
\<close>

definition sample_regions :: "int list list list" where
  "sample_regions =
     [[[10, 1, 10, 5, 3, 0, 0, 0], [10, 1, 10, 5, 7, 0, 0, 0],
       [11, 1, 11, 5, 0, 0, 0, 0], [12, 1, 12, 5, 1, 0, 0, 2]],
      [[20, 3, 20, 9, 1, 0, 0, 0]]]"

definition function_json :: "int list list \<Rightarrow> json" where
  "function_json rs = JObj [(''name'', JStr ''f''), (''regions'', JList (map region_json rs))]"

definition summary_json :: "int list list list \<Rightarrow> json" where
  "summary_json fss =
     JObj [(''data'', JList [JObj [(''functions'', JList (map function_json fss))]])]"

definition sample_summary :: json where
  "sample_summary = summary_json sample_regions"

definition short_summary :: json where
  "short_summary = summary_json [[[10, 1, 10, 5, 3, 0, 0, 0]]]"

definition defective_summary :: json where
  "defective_summary = summary_json (sample_regions @ [[[1, 2]]])"

text \<open>
  A summary with the defect in the middle: the first function of the full summary, then a
  function with a hit code region, a two-field record and another hit code region, then
  the second function of the full summary.
\<close>

definition interrupted_summary :: json where
  "interrupted_summary =
     summary_json
       [[[10, 1, 10, 5, 3, 0, 0, 0], [10, 1, 10, 5, 7, 0, 0, 0],
         [11, 1, 11, 5, 0, 0, 0, 0], [12, 1, 12, 5, 1, 0, 0, 2]],
        [[30, 1, 30, 5, 1, 0, 0, 0], [1, 2], [31, 1, 31, 5, 1, 0, 0, 0]],
        [[20, 3, 20, 9, 1, 0, 0, 0]]]"

text \<open>
  A decoder that knows four lines, named \<open>summary\<close>, \<open>short\<close>, \<open>defective\<close> and
  \<open>interrupted\<close> for the texts of the four documents, with or without the newline
  that ends them.
\<close>

definition sample_loads :: "string \<Rightarrow> pyexc + json" where
  "sample_loads s =
     (if s = ''summary'' \<or> s = ''summary'' @ [CHR 0x0A] then Inr sample_summary
      else if s = ''short'' \<or> s = ''short'' @ [CHR 0x0A] then Inr short_summary
      else if s = ''defective'' \<or> s = ''defective'' @ [CHR 0x0A] then Inr defective_summary
      else if s = ''interrupted'' \<or> s = ''interrupted'' @ [CHR 0x0A] then Inr interrupted_summary
      else Inl JSONDecodeError)"

text \<open>
  The environment: trial directories named after benchmark, fuzzer and trial; a coverage
  tool that exits with 0 and prints a warning and then the short summary for the trials
  1 and 5, the full summary for any other trial.
\<close>

definition sample_trial_dir :: "string \<Rightarrow> string \<Rightarrow> int \<Rightarrow> string" where
  "sample_trial_dir fuzzer benchmark trial_num =
     benchmark @ ''-'' @ fuzzer @ ''/trial-''
       @ (if trial_num = 1 then ''1'' else if trial_num = 2 then ''2''
          else if trial_num = 3 then ''3'' else if trial_num = 4 then ''4'' else ''5'')"

definition ends_with :: "string \<Rightarrow> string \<Rightarrow> bool" where
  "ends_with s sfx = (drop (length s - length sfx) s = sfx)"

definition sample_env :: environment where
  "sample_env =
     \<lparr> get_trial_dir = sample_trial_dir, get_work_dir = ''/work'',
       get_coverage_binary = (\<lambda>benchmark. Inr (''/coverage-binaries/'' @ benchmark @ ''/fuzz-target'')),
       open_for_writing = (\<lambda>path. None),
       execute = (\<lambda>command.
         Inr (0, if ends_with (last command) ''/trial-1/reports/data.profdata''
                    \<or> ends_with (last command) ''/trial-5/reports/data.profdata''
                 then ''warning: x\<newline>short\<newline>'' else ''warning: x\<newline>summary\<newline>'')) \<rparr>"

definition sample_trial :: trial_coverage where
  "sample_trial = TrialCoverage sample_trial_dir ''/work'' ''afl'' ''b1'' 1"

definition sample_fs :: "string \<Rightarrow> filesystem" where
  "sample_fs content path =
     (if path = ''/work/measurement-folders/b1-afl/trial-1/reports/cov_summary.json''
      then Text content else Absent)"

text \<open>
  The registry: trials 1 and 2 of \<open>afl\<close> on \<open>b1\<close>, a preempted trial 3, and no
  trial of \<open>libfuzzer\<close>; for the names with spaces, trial 4 of \<open>a b\<close> on \<open>c\<close> and
  trial 5 of \<open>a\<close> on \<open>b c\<close>.
\<close>

definition sample_db :: "trial list" where
  "sample_db =
     [\<lparr>row_id = 1, row_experiment = ''e'', row_fuzzer = ''afl'', row_benchmark = ''b1'', row_preempted = False\<rparr>,
      \<lparr>row_id = 2, row_experiment = ''e'', row_fuzzer = ''afl'', row_benchmark = ''b1'', row_preempted = False\<rparr>,
      \<lparr>row_id = 3, row_experiment = ''e'', row_fuzzer = ''afl'', row_benchmark = ''b1'', row_preempted = True\<rparr>,
      \<lparr>row_id = 4, row_experiment = ''e'', row_fuzzer = ''a b'', row_benchmark = ''c'', row_preempted = False\<rparr>,
      \<lparr>row_id = 5, row_experiment = ''e'', row_fuzzer = ''a'', row_benchmark = ''b c'', row_preempted = False\<rparr>]"

definition sample_config :: "string dict" where
  "sample_config = [(''benchmarks'', ''b1''), (''fuzzers'', ''afl,libfuzzer''), (''experiment'', ''e'')]"

definition spaces_config :: "string dict" where
  "spaces_config = [(''benchmarks'', ''c,b c''), (''fuzzers'', ''a b,a''), (''experiment'', ''e'')]"

definition no_files :: filesystem where
  "no_files path = Absent"

definition sample_worker ::
  "string \<times> string \<times> string \<Rightarrow> region set dict list \<Rightarrow> pyexc + region set dict list" where
  "sample_worker = worker sample_loads sample_env sample_db no_files"

text \<open>The two covered regions of the full summary, and the state a full run ends in.\<close>

definition sample_covered :: "region set" where
  "sample_covered = {[KInt 10, KInt 1, KInt 10, KInt 5], [KInt 20, KInt 3, KInt 20, KInt 9]}"

definition sample_final :: engine where
  "sample_final =
     \<lparr>tasks = [Done, Done], queue = [],
      all_covered_regions = [(''libfuzzer b1'', {}), (''afl b1'', sample_covered)],
      place = Exited\<rparr>"

definition sample_regions_of :: "string \<Rightarrow> string \<Rightarrow> region set" where
  "sample_regions_of fuzzer benchmark = (if fuzzer = ''afl'' then sample_covered else {})"

text \<open>
  An object store in which the second of three experiments alone has the coverage
  archive of \<open>b1\<close>, and a disk on which no call fails.
\<close>

definition sample_ls :: "string \<Rightarrow> int" where
  "sample_ls path =
     (if path = ''gs://fuzzbench-data/exp2/coverage-binaries/coverage-build-b1.tar.gz''
      then 0 else 1)"

definition never_raises :: "call \<Rightarrow> pyexc option" where
  "never_raises c = None"





section \<open>Properties of the coverage key\<close>

lemma append_space_inject_left:
  assumes "CHR '' '' \<notin> set f1" "CHR '' '' \<notin> set f2"
    and "f1 @ CHR '' '' # b1 = f2 @ CHR '' '' # b2"
  shows "f1 = f2 \<and> b1 = b2"
proof -
  have "takeWhile (\<lambda>c. c \<noteq> CHR '' '') (f1 @ CHR '' '' # b1) = f1"
    using assms(1) by (subst takeWhile_append2) auto
  moreover have "takeWhile (\<lambda>c. c \<noteq> CHR '' '') (f2 @ CHR '' '' # b2) = f2"
    using assms(2) by (subst takeWhile_append2) auto
  ultimately have "f1 = f2" using assms(3) by simp
  with assms(3) show ?thesis by simp
qed

lemma append_space_inject_right:
  assumes "CHR '' '' \<notin> set b1" "CHR '' '' \<notin> set b2"
    and "f1 @ CHR '' '' # b1 = f2 @ CHR '' '' # b2"
  shows "f1 = f2 \<and> b1 = b2"
proof -
  from assms(3) have "rev (f1 @ CHR '' '' # b1) = rev (f2 @ CHR '' '' # b2)" by simp
  then have "rev b1 @ CHR '' '' # rev f1 = rev b2 @ CHR '' '' # rev f2" by simp
  with assms(1,2) have "rev b1 = rev b2 \<and> rev f1 = rev f2"
    by (intro append_space_inject_left) simp_all
  then show ?thesis by simp
qed

text \<open>
  C6 (as amended). The key of a pair is the fuzzer name, one space, the benchmark name.
  It is a function of the pair, and two pairs with the same key are the same pair
  whenever the two fuzzer names, or the two benchmark names, contain no space.
\<close>

theorem get_fuzzer_benchmark_key_unique:
  assumes "(CHR '' '' \<notin> set f1 \<and> CHR '' '' \<notin> set f2) \<or> (CHR '' '' \<notin> set b1 \<and> CHR '' '' \<notin> set b2)"
  shows "get_fuzzer_benchmark_key f1 b1 = f1 @ '' '' @ b1
       \<and> (get_fuzzer_benchmark_key f1 b1 = get_fuzzer_benchmark_key f2 b2 \<longleftrightarrow> f1 = f2 \<and> b1 = b2)"
  using assms append_space_inject_left [of f1 f2 b1 b2] append_space_inject_right [of b1 b2 f1 f2]
  by (auto simp: get_fuzzer_benchmark_key_def)

theorem get_fuzzer_benchmark_key_unique_witness:
  "get_fuzzer_benchmark_key ''afl'' ''b1'' = ''afl b1''
   \<and> get_fuzzer_benchmark_key ''afl'' ''b1'' \<noteq> get_fuzzer_benchmark_key ''libfuzzer'' ''b1''"
  using get_fuzzer_benchmark_key_unique [of "''afl''" "''libfuzzer''" "''b1''" "''b1''"]
  by (simp add: get_fuzzer_benchmark_key_def)

text \<open>
  C6 (as stated) fails for names that contain a space: the pairs
  (\<open>a b\<close>, \<open>c\<close>) and (\<open>a\<close>, \<open>b c\<close>) differ and share the key \<open>a b c\<close>.
\<close>

theorem get_fuzzer_benchmark_key_collision:
  "get_fuzzer_benchmark_key ''a b'' ''c'' = get_fuzzer_benchmark_key ''a'' ''b c''
   \<and> (''a b'', ''c'') \<noteq> (''a'', ''b c'')"
  by (simp add: get_fuzzer_benchmark_key_def)


section \<open>Properties of one trial's covered regions\<close>


lemma and_then_Inr [simp]: "and_then (Inr v) f = f v"
  by (simp add: and_then_def)

lemma and_then_Inl [simp]: "and_then (Inl e) f = Inl e"
  by (simp add: and_then_def)

lemma hash_keys_ints: "hash_keys (map JInt xs) = Inr (map KInt xs)"
  by (induction xs) simp_all

lemma list_index_4: "5 \<le> length xs \<Longrightarrow> list_index xs 4 = Inr (xs ! 4)"
  by (simp add: list_index_def)

lemma list_index_last: "xs \<noteq> [] \<Longrightarrow> list_index xs (- 1) = Inr (last xs)"
  by (cases xs rule: rev_cases) (simp_all add: list_index_def nth_append)

lemma list_index_empty: "list_index [] i = Inl IndexError"
  by (simp add: list_index_def)

lemma region_step_ints:
  assumes "5 \<le> length r"
  shows "region_step (region_json r) acc =
         Inr (if r ! 4 \<noteq> 0 \<and> last r = 0 then insert (map KInt (take 4 r)) acc else acc)"
proof -
  from assms have ne: "r \<noteq> []" by auto
  have hit: "subscript_index (region_json r) 4 = Inr (JInt (r ! 4))"
    using assms by (simp add: region_json_def list_index_4)
  have kind: "subscript_index (region_json r) (- 1) = Inr (JInt (last r))"
    using ne by (simp add: region_json_def list_index_last last_map)
  have tup: "tuple_prefix (region_json r) 4 = Inr (map KInt (take 4 r))"
    by (simp add: region_json_def take_map hash_keys_ints)
  show ?thesis
    by (simp add: region_step_def hit kind tup eq_zero_def)
qed

lemma scan_regions_ints:
  assumes "\<forall>r \<in> set rs. 5 \<le> length r"
  shows "scan_regions (map region_json rs) acc = (None, acc \<union> hit_code_regions (set rs))"
  using assms
proof (induction rs arbitrary: acc)
  case Nil
  then show ?case by (simp add: hit_code_regions_def)
next
  case (Cons r rs)
  then have "5 \<le> length r" and rest: "\<forall>r \<in> set rs. 5 \<le> length r" by simp_all
  then show ?case
    using Cons.IH [OF rest]
    by (auto simp: region_step_ints hit_code_regions_def)
qed

lemma scan_functions_ints:
  assumes "list_all2 (\<lambda>fd rs. subscript_key fd ''regions'' = Inr (JList (map region_json rs))) fds fss"
    and "\<forall>rs \<in> set fss. \<forall>r \<in> set rs. 5 \<le> length r"
  shows "scan_functions fds acc = (None, acc \<union> hit_code_regions (\<Union> (set ` set fss)))"
  using assms
proof (induction fds fss arbitrary: acc rule: list_all2_induct)
  case Nil
  then show ?case by (simp add: hit_code_regions_def)
next
  case (Cons fd fds rs fss)
  from Cons.prems have here: "\<forall>r \<in> set rs. 5 \<le> length r"
    and rest: "\<forall>rs \<in> set fss. \<forall>r \<in> set rs. 5 \<le> length r" by simp_all
  have "hit_code_regions (\<Union> (set ` set (rs # fss)))
        = hit_code_regions (set rs) \<union> hit_code_regions (\<Union> (set ` set fss))"
    by (auto simp: hit_code_regions_def)
  then show ?case
    using Cons.hyps(1) Cons.IH [OF rest] scan_regions_ints [OF here]
    by (simp add: Un_assoc)
qed

text \<open>
  C1. When \<^verbatim>\<open>coverage_info['data'][0]['functions']\<close> is a list of function records
  whose \<^verbatim>\<open>'regions'\<close> are tuples of at least five integers,
  \<^verbatim>\<open>get_current_covered_regions\<close> returns exactly the set of the first four fields
  of the tuples whose fifth field is not 0 and whose last field is 0, and logs nothing.
  Every other tuple is left out, and the result being a set, a projection that qualifies
  several times is in it once.
\<close>

theorem get_current_covered_regions_exact:
  assumes "functions_data loads fs (cov_summary_file tc) = Inr fds"
    and "list_all2 (\<lambda>fd rs. subscript_key fd ''regions'' = Inr (JList (map region_json rs))) fds fss"
    and "\<forall>rs \<in> set fss. \<forall>r \<in> set rs. 5 \<le> length r"
  shows "get_current_covered_regions loads fs tc =
         ({map KInt (take 4 r) | r. r \<in> \<Union> (set ` set fss) \<and> r ! 4 \<noteq> 0 \<and> last r = 0}, [])"
proof -
  have "scan_functions fds {} = (None, hit_code_regions (\<Union> (set ` set fss)))"
    using scan_functions_ints [OF assms(2,3), of "{}"] by simp
  moreover have "hit_code_regions (\<Union> (set ` set fss))
      = {map KInt (take 4 r) | r. r \<in> \<Union> (set ` set fss) \<and> r ! 4 \<noteq> 0 \<and> last r = 0}"
    by (auto simp: hit_code_regions_def)
  ultimately show ?thesis
    using assms(1) by (simp add: get_current_covered_regions_def extract_regions_def)
qed

lemma scan_regions_mono: "scan_regions rs acc = (x, acc') \<Longrightarrow> acc \<subseteq> acc'"
proof (induction rs arbitrary: acc)
  case Nil
  then show ?case by simp
next
  case (Cons r rs)
  show ?case
  proof (cases "region_step r acc")
    case (Inl e)
    with Cons.prems show ?thesis by simp
  next
    case (Inr acc1)
    then have "acc \<subseteq> acc1"
      by (auto simp: region_step_def and_then_def split: sum.splits if_splits)
    moreover from Inr Cons.prems have "scan_regions rs acc1 = (x, acc')" by simp
    then have "acc1 \<subseteq> acc'" by (rule Cons.IH)
    ultimately show ?thesis by blast
  qed
qed

lemma scan_functions_mono: "scan_functions fds acc = (x, acc') \<Longrightarrow> acc \<subseteq> acc'"
proof (induction fds arbitrary: acc)
  case Nil
  then show ?case by simp
next
  case (Cons fd fds)
  show ?case
  proof (cases "and_then (subscript_key fd ''regions'') iterate")
    case (Inl e)
    with Cons.prems show ?thesis by simp
  next
    case (Inr regions)
    obtain y acc1 where sr: "scan_regions regions acc = (y, acc1)"
      by (cases "scan_regions regions acc")
    then have a: "acc \<subseteq> acc1" by (rule scan_regions_mono)
    show ?thesis
    proof (cases y)
      case None
      with Inr sr Cons.prems have "scan_functions fds acc1 = (x, acc')" by simp
      then have "acc1 \<subseteq> acc'" by (rule Cons.IH)
      with a show ?thesis by blast
    next
      case (Some e)
      with Inr sr Cons.prems have "acc' = acc1" by simp
      with a show ?thesis by simp
    qed
  qed
qed

lemma scan_functions_append:
  "scan_functions pre acc = (None, found) \<Longrightarrow>
   scan_functions (pre @ rest) acc = scan_functions rest found"
proof (induction pre arbitrary: acc)
  case Nil
  then show ?case by simp
next
  case (Cons fd pre)
  then show ?case
    by (auto split: sum.splits prod.splits option.splits)
qed

lemma readlines_empty: "readlines [] = []"
  by (simp add: readlines_def)

lemma scan_regions_append:
  "scan_regions before acc = (None, found) \<Longrightarrow>
   scan_regions (before @ rest) acc = scan_regions rest found"
proof (induction before arbitrary: acc)
  case Nil
  then show ?case by simp
next
  case (Cons r before)
  then show ?case by (auto split: sum.splits)
qed

lemma region_step_fails_anywhere:
  "region_step r acc = Inl e \<Longrightarrow> region_step r acc' = Inl e"
  by (auto simp: region_step_def and_then_def split: sum.splits if_splits)

lemma hit_code_regions_Un:
  "hit_code_regions (A \<union> B) = hit_code_regions A \<union> hit_code_regions B"
  by (auto simp: hit_code_regions_def)

lemma extract_defective_function:
  assumes "functions_data loads fs path = Inr (pre @ bad # rest)"
    and "scan_functions pre {} = (None, found)"
    and "and_then (subscript_key bad ''regions'') iterate = Inl e"
  shows "extract_regions loads fs path = (Some e, found)"
  using assms by (simp add: extract_regions_def scan_functions_append)

lemma extract_defective_region:
  assumes "functions_data loads fs path = Inr (pre @ bad # rest)"
    and "scan_functions pre {} = (None, found)"
    and "and_then (subscript_key bad ''regions'') iterate = Inr (before @ r # after)"
    and "scan_regions before found = (None, found')"
    and "region_step r found' = Inl e"
  shows "extract_regions loads fs path = (Some e, found')"
proof -
  have "scan_regions (before @ r # after) found = (Some e, found')"
    using assms(4,5) by (simp add: scan_regions_append)
  then have "scan_functions (bad # rest) found = (Some e, found')"
    using assms(3) by simp
  then show ?thesis
    using assms(1,2) by (simp add: extract_regions_def scan_functions_append)
qed

text \<open>
  C4 (as amended). \<^verbatim>\<open>get_current_covered_regions\<close> returns a set and never an
  exception. When the summary file is missing, unreadable or empty, when its last line
  does not decode, or when \<^verbatim>\<open>['data'][0]['functions']\<close> cannot be reached or
  iterated, it returns the empty set and logs one error. When a function record or a
  region record further on is the defective one, it logs one error and returns exactly
  the set built before that record, nothing of what follows it: after function and
  region records of integer tuples, their covered regions.
\<close>

theorem get_current_covered_regions_failure:
  "(fs (cov_summary_file tc) = Absent \<or> fs (cov_summary_file tc) = Unreadable e
      \<or> fs (cov_summary_file tc) = Text []
      \<or> (fs (cov_summary_file tc) = Text c \<and> readlines c \<noteq> []
          \<and> loads (last (readlines c)) = Inl e)
      \<or> functions_data loads fs (cov_summary_file tc) = Inl e \<longrightarrow>
    get_current_covered_regions loads fs tc
      = ({}, [''Coverage summary json file defective or missing.'']))
   \<and> (functions_data loads fs (cov_summary_file tc) = Inr (pre @ bad # rest)
        \<and> scan_functions pre {} = (None, found)
        \<and> and_then (subscript_key bad ''regions'') iterate = Inl e \<longrightarrow>
      get_current_covered_regions loads fs tc
        = (found, [''Coverage summary json file defective or missing.'']))
   \<and> (functions_data loads fs (cov_summary_file tc) = Inr (pre @ bad # rest)
        \<and> scan_functions pre {} = (None, found)
        \<and> and_then (subscript_key bad ''regions'') iterate = Inr (before @ r # after)
        \<and> scan_regions before found = (None, found')
        \<and> region_step r found' = Inl e \<longrightarrow>
      get_current_covered_regions loads fs tc
        = (found', [''Coverage summary json file defective or missing.'']))
   \<and> (functions_data loads fs (cov_summary_file tc) = Inr (pre @ bad # rest)
        \<and> list_all2 (\<lambda>fd rs. subscript_key fd ''regions'' = Inr (JList (map region_json rs))) pre fss
        \<and> (\<forall>rs \<in> set fss. \<forall>t \<in> set rs. 5 \<le> length t)
        \<and> and_then (subscript_key bad ''regions'') iterate = Inr (map region_json good @ r # after)
        \<and> (\<forall>t \<in> set good. 5 \<le> length t)
        \<and> region_step r {} = Inl e \<longrightarrow>
      get_current_covered_regions loads fs tc
        = (hit_code_regions (\<Union> (set ` set fss) \<union> set good),
           [''Coverage summary json file defective or missing.'']))"
proof (intro conjI impI)
  assume a: "fs (cov_summary_file tc) = Absent \<or> fs (cov_summary_file tc) = Unreadable e
      \<or> fs (cov_summary_file tc) = Text []
      \<or> (fs (cov_summary_file tc) = Text c \<and> readlines c \<noteq> []
          \<and> loads (last (readlines c)) = Inl e)
      \<or> functions_data loads fs (cov_summary_file tc) = Inl e"
  have "\<exists>e'. functions_data loads fs (cov_summary_file tc) = Inl e'"
    using a
    by (auto simp: functions_data_def get_coverage_infomation_def readlines_empty
        list_index_empty list_index_last)
  then show "get_current_covered_regions loads fs tc
      = ({}, [''Coverage summary json file defective or missing.''])"
    by (auto simp: get_current_covered_regions_def extract_regions_def)
next
  assume "functions_data loads fs (cov_summary_file tc) = Inr (pre @ bad # rest)
        \<and> scan_functions pre {} = (None, found)
        \<and> and_then (subscript_key bad ''regions'') iterate = Inl e"
  then have "extract_regions loads fs (cov_summary_file tc) = (Some e, found)"
    using extract_defective_function [of loads fs "cov_summary_file tc" pre bad rest found e]
    by blast
  then show "get_current_covered_regions loads fs tc
        = (found, [''Coverage summary json file defective or missing.''])"
    by (simp add: get_current_covered_regions_def)
next
  assume "functions_data loads fs (cov_summary_file tc) = Inr (pre @ bad # rest)
        \<and> scan_functions pre {} = (None, found)
        \<and> and_then (subscript_key bad ''regions'') iterate = Inr (before @ r # after)
        \<and> scan_regions before found = (None, found')
        \<and> region_step r found' = Inl e"
  then have "extract_regions loads fs (cov_summary_file tc) = (Some e, found')"
    using extract_defective_region [where before = before and after = after and r = r
          and found = found and pre = pre and bad = bad and rest = rest and e = e
          and found' = found' and loads = loads and fs = fs and path = "cov_summary_file tc"]
    by blast
  then show "get_current_covered_regions loads fs tc
        = (found', [''Coverage summary json file defective or missing.''])"
    by (simp add: get_current_covered_regions_def)
next
  assume a: "functions_data loads fs (cov_summary_file tc) = Inr (pre @ bad # rest)
        \<and> list_all2 (\<lambda>fd rs. subscript_key fd ''regions'' = Inr (JList (map region_json rs))) pre fss
        \<and> (\<forall>rs \<in> set fss. \<forall>t \<in> set rs. 5 \<le> length t)
        \<and> and_then (subscript_key bad ''regions'') iterate = Inr (map region_json good @ r # after)
        \<and> (\<forall>t \<in> set good. 5 \<le> length t)
        \<and> region_step r {} = Inl e"
  let ?found = "hit_code_regions (\<Union> (set ` set fss))"
  let ?found' = "hit_code_regions (\<Union> (set ` set fss) \<union> set good)"
  from a have "scan_functions pre {} = (None, {} \<union> ?found)"
    using scan_functions_ints [of pre fss "{}"] by blast
  then have p: "scan_functions pre {} = (None, ?found)" by simp
  from a have "scan_regions (map region_json good) ?found = (None, ?found \<union> hit_code_regions (set good))"
    using scan_regions_ints [of good ?found] by blast
  then have g: "scan_regions (map region_json good) ?found = (None, ?found')"
    by (simp add: hit_code_regions_Un)
  from a have f: "region_step r ?found' = Inl e"
    using region_step_fails_anywhere [of r "{}" e ?found'] by blast
  from a p g f have "extract_regions loads fs (cov_summary_file tc) = (Some e, ?found')"
    using extract_defective_region [where before = "map region_json good" and after = after
          and r = r and found = ?found and pre = pre and bad = bad and rest = rest and e = e
          and found' = ?found' and loads = loads and fs = fs and path = "cov_summary_file tc"]
    by blast
  then show "get_current_covered_regions loads fs tc
        = (?found', [''Coverage summary json file defective or missing.''])"
    by (simp add: get_current_covered_regions_def)
qed

lemma universal_newlines_id: "CHR 0x0D \<notin> set s \<Longrightarrow> universal_newlines s = s"
  by (induction s rule: universal_newlines.induct) auto

lemma keepends_line:
  "line \<noteq> [] \<Longrightarrow> CHR 0x0A \<notin> set (butlast line) \<Longrightarrow> keepends line = [line]"
proof (induction line)
  case Nil
  then show ?case by simp
next
  case (Cons c cs)
  show ?case
  proof (cases "cs = []")
    case True
    then show ?thesis by simp
  next
    case False
    with Cons show ?thesis by auto
  qed
qed

lemma keepends_warning:
  "CHR 0x0A \<notin> set w \<Longrightarrow> keepends (w @ CHR 0x0A # rest) = (w @ [CHR 0x0A]) # keepends rest"
  by (induction w) auto

lemma keepends_warnings:
  assumes "\<forall>w \<in> set ws. CHR 0x0A \<notin> set w"
  shows "keepends (concat (map (\<lambda>w. w @ [CHR 0x0A]) ws) @ rest)
         = map (\<lambda>w. w @ [CHR 0x0A]) ws @ keepends rest"
  using assms by (induction ws) (simp_all add: keepends_warning)

lemma readlines_last_line:
  assumes "\<forall>w \<in> set ws. CHR 0x0A \<notin> set w \<and> CHR 0x0D \<notin> set w"
    and "line \<noteq> []" "CHR 0x0A \<notin> set (butlast line)" "CHR 0x0D \<notin> set line"
  shows "readlines (concat (map (\<lambda>w. w @ [CHR 0x0A]) ws) @ line)
         = map (\<lambda>w. w @ [CHR 0x0A]) ws @ [line]"
proof -
  have "CHR 0x0D \<notin> set (concat (map (\<lambda>w. w @ [CHR 0x0A]) ws) @ line)"
    using assms(1,4) by auto
  then have "universal_newlines (concat (map (\<lambda>w. w @ [CHR 0x0A]) ws) @ line)
      = concat (map (\<lambda>w. w @ [CHR 0x0A]) ws) @ line"
    by (rule universal_newlines_id)
  then have "readlines (concat (map (\<lambda>w. w @ [CHR 0x0A]) ws) @ line)
      = keepends (concat (map (\<lambda>w. w @ [CHR 0x0A]) ws) @ line)"
    by (simp only: readlines_def)
  also have "\<dots> = map (\<lambda>w. w @ [CHR 0x0A]) ws @ keepends line"
    using assms(1) by (intro keepends_warnings) simp
  finally show ?thesis using assms(2,3) by (simp add: keepends_line)
qed

text \<open>
  C10. \<^verbatim>\<open>get_coverage_infomation\<close> decodes the last line of the file and nothing
  else: whatever warning lines come first, the result is the decoder's result on the
  last line (so a last line that does not decode makes the read fail), an empty file
  fails with \<^verbatim>\<open>IndexError\<close>, and the regions \<^verbatim>\<open>get_current_covered_regions\<close>
  returns are those of a file that holds the last line alone.
\<close>

theorem get_coverage_infomation_last_line:
  "(fs (cov_summary_file tc) = Text [] \<longrightarrow>
      get_coverage_infomation loads fs (cov_summary_file tc) = Inl IndexError)
   \<and> ((\<forall>w \<in> set ws. CHR 0x0A \<notin> set w \<and> CHR 0x0D \<notin> set w)
        \<and> line \<noteq> [] \<and> CHR 0x0A \<notin> set (butlast line) \<and> CHR 0x0D \<notin> set line
        \<and> fs (cov_summary_file tc) = Text (concat (map (\<lambda>w. w @ [CHR 0x0A]) ws) @ line) \<longrightarrow>
      get_coverage_infomation loads fs (cov_summary_file tc) = loads line
      \<and> get_current_covered_regions loads fs tc
          = get_current_covered_regions loads (\<lambda>path. Text line) tc)"
proof (rule conjI; rule impI)
  assume "fs (cov_summary_file tc) = Text []"
  then show "get_coverage_infomation loads fs (cov_summary_file tc) = Inl IndexError"
    by (simp add: get_coverage_infomation_def readlines_empty list_index_empty)
next
  assume a: "(\<forall>w \<in> set ws. CHR 0x0A \<notin> set w \<and> CHR 0x0D \<notin> set w)
        \<and> line \<noteq> [] \<and> CHR 0x0A \<notin> set (butlast line) \<and> CHR 0x0D \<notin> set line
        \<and> fs (cov_summary_file tc) = Text (concat (map (\<lambda>w. w @ [CHR 0x0A]) ws) @ line)"
  then have "readlines (concat (map (\<lambda>w. w @ [CHR 0x0A]) ws) @ line)
         = map (\<lambda>w. w @ [CHR 0x0A]) ws @ [line]"
    by (intro readlines_last_line) simp_all
  with a have whole: "get_coverage_infomation loads fs (cov_summary_file tc) = loads line"
    by (simp add: get_coverage_infomation_def list_index_last)
  from a have "readlines line = [line]"
    using readlines_last_line [of "[]" line] by simp
  then have alone: "get_coverage_infomation loads (\<lambda>path. Text line) (cov_summary_file tc) = loads line"
    by (simp add: get_coverage_infomation_def list_index_last)
  from whole alone show "get_coverage_infomation loads fs (cov_summary_file tc) = loads line
      \<and> get_current_covered_regions loads fs tc
          = get_current_covered_regions loads (\<lambda>path. Text line) tc"
    by (simp add: get_current_covered_regions_def extract_regions_def functions_data_def)
qed

subsection \<open>The sample trial\<close>

lemma sample_path: "cov_summary_file sample_trial = ''/work/measurement-folders/b1-afl/trial-1/reports/cov_summary.json''"
  by (simp add: sample_trial_def TrialCoverage_def path_join_def join2_def sample_trial_dir_def Let_def)

lemma sample_lines:
  "readlines ''warning: x\<newline>summary\<newline>'' = [''warning: x\<newline>'', ''summary\<newline>'']"
  "readlines ''summary\<newline>defective\<newline>'' = [''summary\<newline>'', ''defective\<newline>'']"
  by (simp_all add: readlines_def)

lemma sample_functions_data:
  "functions_data sample_loads (sample_fs ''warning: x\<newline>summary\<newline>'') (cov_summary_file sample_trial)
   = Inr (map function_json sample_regions)"
  by (simp add: functions_data_def get_coverage_infomation_def sample_path sample_fs_def
      sample_lines list_index_last sample_loads_def sample_summary_def summary_json_def list_index_def)

lemma sample_shape:
  "list_all2 (\<lambda>fd rs. subscript_key fd ''regions'' = Inr (JList (map region_json rs)))
     (map function_json sample_regions) sample_regions"
  by (simp add: list_all2_map1 function_json_def list.rel_refl)

theorem get_current_covered_regions_exact_witness:
  "get_current_covered_regions sample_loads (sample_fs ''warning: x\<newline>summary\<newline>'') sample_trial
   = ({[KInt 10, KInt 1, KInt 10, KInt 5], [KInt 20, KInt 3, KInt 20, KInt 9]}, [])"
proof -
  have len: "\<forall>rs \<in> set sample_regions. \<forall>r \<in> set rs. 5 \<le> length r"
    by (simp add: sample_regions_def)
  have "{map KInt (take 4 r) | r. r \<in> \<Union> (set ` set sample_regions) \<and> r ! 4 \<noteq> 0 \<and> last r = 0}
      = {[KInt 10, KInt 1, KInt 10, KInt 5], [KInt 20, KInt 3, KInt 20, KInt 9]}"
    by (auto simp: sample_regions_def
        intro: exI [of _ "[10, 1, 10, 5, 3, 0, 0, 0]"] exI [of _ "[20, 3, 20, 9, 1, 0, 0, 0]"])
  then show ?thesis
    using get_current_covered_regions_exact [OF sample_functions_data sample_shape len]
    by simp
qed

text \<open>
  C4 (as stated) fails. The summary file ends with the defective document: its first two
  functions are read, the two-field region record of the third raises
  \<^verbatim>\<open>IndexError\<close>, the error is logged, and the set returned holds the two regions
  added before; it is not empty.
\<close>

theorem get_current_covered_regions_keeps_regions:
  "get_current_covered_regions sample_loads (sample_fs ''summary\<newline>defective\<newline>'') sample_trial
   = ({[KInt 10, KInt 1, KInt 10, KInt 5], [KInt 20, KInt 3, KInt 20, KInt 9]},
      [''Coverage summary json file defective or missing.''])"
  by code_simp

lemma defective_functions_data:
  "functions_data sample_loads (sample_fs ''summary\<newline>defective\<newline>'') (cov_summary_file sample_trial)
   = Inr (map function_json sample_regions @ [function_json [[1, 2]]])"
  by (simp add: functions_data_def get_coverage_infomation_def sample_path sample_fs_def
      sample_lines list_index_last sample_loads_def defective_summary_def summary_json_def list_index_def)

lemma sample_scan:
  "scan_functions (map function_json sample_regions) {}
   = (None, {[KInt 10, KInt 1, KInt 10, KInt 5], [KInt 20, KInt 3, KInt 20, KInt 9]})"
  by code_simp

lemma defective_scan:
  "fst (scan_functions [function_json [[1, 2]]]
         {[KInt 10, KInt 1, KInt 10, KInt 5], [KInt 20, KInt 3, KInt 20, KInt 9]}) = Some IndexError"
  by code_simp

lemma interrupted_functions_data:
  "functions_data sample_loads (sample_fs ''interrupted\<newline>'') (cov_summary_file sample_trial)
   = Inr ([function_json [[10, 1, 10, 5, 3, 0, 0, 0], [10, 1, 10, 5, 7, 0, 0, 0],
                          [11, 1, 11, 5, 0, 0, 0, 0], [12, 1, 12, 5, 1, 0, 0, 2]]]
          @ function_json [[30, 1, 30, 5, 1, 0, 0, 0], [1, 2], [31, 1, 31, 5, 1, 0, 0, 0]]
          # [function_json [[20, 3, 20, 9, 1, 0, 0, 0]]])"
  by (simp add: functions_data_def get_coverage_infomation_def sample_path sample_fs_def
      readlines_def list_index_def sample_loads_def interrupted_summary_def summary_json_def)

lemma interrupted_result:
  "get_current_covered_regions sample_loads (sample_fs ''interrupted\<newline>'') sample_trial
   = ({[KInt 10, KInt 1, KInt 10, KInt 5], [KInt 30, KInt 1, KInt 30, KInt 5]},
      [''Coverage summary json file defective or missing.''])"
  by code_simp

theorem get_current_covered_regions_failure_witness:
  "get_current_covered_regions sample_loads (\<lambda>path. Absent) sample_trial
     = ({}, [''Coverage summary json file defective or missing.''])
   \<and> get_current_covered_regions sample_loads (sample_fs ''interrupted\<newline>'') sample_trial
     = (hit_code_regions
          (\<Union> (set ` set [[[10, 1, 10, 5, 3, 0, 0, 0], [10, 1, 10, 5, 7, 0, 0, 0],
                               [11, 1, 11, 5, 0, 0, 0, 0], [12, 1, 12, 5, 1, 0, 0, 2]]])
           \<union> set [[30, 1, 30, 5, 1, 0, 0, 0]]),
        [''Coverage summary json file defective or missing.''])
   \<and> hit_code_regions
          (\<Union> (set ` set [[[10, 1, 10, 5, 3, 0, 0, 0], [10, 1, 10, 5, 7, 0, 0, 0],
                               [11, 1, 11, 5, 0, 0, 0, 0], [12, 1, 12, 5, 1, 0, 0, 2]]])
           \<union> set [[30, 1, 30, 5, 1, 0, 0, 0]])
     = {[KInt 10, KInt 1, KInt 10, KInt 5], [KInt 30, KInt 1, KInt 30, KInt 5]}"
proof -
  have absent: "get_current_covered_regions sample_loads (\<lambda>path. Absent) sample_trial
     = ({}, [''Coverage summary json file defective or missing.''])"
    using get_current_covered_regions_failure
            [where fs = "\<lambda>path. Absent" and tc = sample_trial and loads = sample_loads]
    by simp
  have shape: "list_all2 (\<lambda>fd rs. subscript_key fd ''regions'' = Inr (JList (map region_json rs)))
      [function_json [[10, 1, 10, 5, 3, 0, 0, 0], [10, 1, 10, 5, 7, 0, 0, 0],
                      [11, 1, 11, 5, 0, 0, 0, 0], [12, 1, 12, 5, 1, 0, 0, 2]]]
      [[[10, 1, 10, 5, 3, 0, 0, 0], [10, 1, 10, 5, 7, 0, 0, 0],
        [11, 1, 11, 5, 0, 0, 0, 0], [12, 1, 12, 5, 1, 0, 0, 2]]]"
    by (simp add: function_json_def)
  have bad: "and_then (subscript_key
                 (function_json [[30, 1, 30, 5, 1, 0, 0, 0], [1, 2], [31, 1, 31, 5, 1, 0, 0, 0]])
                 ''regions'') iterate
      = Inr (map region_json [[30, 1, 30, 5, 1, 0, 0, 0]] @ region_json [1, 2]
             # [region_json [31, 1, 31, 5, 1, 0, 0, 0]])"
    by (simp add: function_json_def)
  have r: "region_step (region_json [1, 2]) {} = Inl IndexError"
    by (simp add: region_step_def region_json_def list_index_def)
  have interrupted: "get_current_covered_regions sample_loads (sample_fs ''interrupted\<newline>'') sample_trial
     = (hit_code_regions
          (\<Union> (set ` set [[[10, 1, 10, 5, 3, 0, 0, 0], [10, 1, 10, 5, 7, 0, 0, 0],
                               [11, 1, 11, 5, 0, 0, 0, 0], [12, 1, 12, 5, 1, 0, 0, 2]]])
           \<union> set [[30, 1, 30, 5, 1, 0, 0, 0]]),
        [''Coverage summary json file defective or missing.''])"
    using get_current_covered_regions_failure
            [where fs = "sample_fs ''interrupted\<newline>''" and tc = sample_trial
               and loads = sample_loads
               and pre = "[function_json [[10, 1, 10, 5, 3, 0, 0, 0], [10, 1, 10, 5, 7, 0, 0, 0],
                                          [11, 1, 11, 5, 0, 0, 0, 0], [12, 1, 12, 5, 1, 0, 0, 2]]]"
               and bad = "function_json [[30, 1, 30, 5, 1, 0, 0, 0], [1, 2], [31, 1, 31, 5, 1, 0, 0, 0]]"
               and rest = "[function_json [[20, 3, 20, 9, 1, 0, 0, 0]]]"
               and fss = "[[[10, 1, 10, 5, 3, 0, 0, 0], [10, 1, 10, 5, 7, 0, 0, 0],
                            [11, 1, 11, 5, 0, 0, 0, 0], [12, 1, 12, 5, 1, 0, 0, 2]]]"
               and good = "[[30, 1, 30, 5, 1, 0, 0, 0]]" and r = "region_json [1, 2]"
               and after = "[region_json [31, 1, 31, 5, 1, 0, 0, 0]]" and e = IndexError]
          interrupted_functions_data shape bad r
    by simp
  from interrupted interrupted_result absent show ?thesis by simp
qed

theorem get_coverage_infomation_last_line_witness:
  "get_coverage_infomation sample_loads (sample_fs ''warning: x\<newline>summary\<newline>'')
     (cov_summary_file sample_trial) = Inr sample_summary
   \<and> get_current_covered_regions sample_loads (sample_fs ''warning: x\<newline>summary\<newline>'') sample_trial
     = get_current_covered_regions sample_loads (\<lambda>path. Text ''summary\<newline>'') sample_trial"
  using get_coverage_infomation_last_line
          [where fs = "sample_fs ''warning: x\<newline>summary\<newline>''" and tc = sample_trial
             and loads = sample_loads and ws = "[''warning: x'']" and line = "''summary\<newline>''"]
  by (simp add: sample_path sample_fs_def sample_loads_def)

section \<open>Properties of the reducer and of the engine\<close>

lemma dict_set_keys: "fst ` set (dict_set d k v) = insert k (fst ` set d)"
  by (induction d k v rule: dict_set.induct) (simp_all add: insert_commute)

lemma dict_set_entries: "set (dict_set d k v) \<subseteq> insert (k, v) (set d)"
  by (induction d k v rule: dict_set.induct) auto

lemma map_of_dict_set: "map_of (dict_set d k v) = (map_of d)(k \<mapsto> v)"
  by (induction d k v rule: dict_set.induct) (auto simp: fun_eq_iff)

lemma map_fst_dict_set:
  "map fst (dict_set d k v) = (if k \<in> fst ` set d then map fst d else map fst d @ [k])"
  by (induction d k v rule: dict_set.induct) (simp_all add: image_iff)

lemma distinct_dict_set: "distinct (map fst d) \<Longrightarrow> distinct (map fst (dict_set d k v))"
  by (auto simp: map_fst_dict_set)

lemma dict_update_single: "dict_update d [(k, v)] = dict_set d k v"
  by simp

text \<open>
  C2 (as amended). When the loop receives a single-entry mapping, the entry of its key
  becomes the incoming set, whether or not the key was there (the \<^verbatim>\<open>update\<close> of a
  dict replaces, it does not unite); the entries of all other keys stay as they are and
  no key is removed.
\<close>

theorem receive_replaces_entry:
  assumes "place s = Polling" and "queue s = [(k, regions)] # rest"
  shows "\<exists>s'. step work pool Get s = Some s' \<and> queue s' = rest
           \<and> map_of (all_covered_regions s') = (map_of (all_covered_regions s))(k \<mapsto> regions)
           \<and> fst ` set (all_covered_regions s') = insert k (fst ` set (all_covered_regions s))"
  using assms by (simp add: map_of_dict_set dict_set_keys)

theorem receive_replaces_entry_witness:
  "\<exists>s'. step sample_worker 4 Get
           \<lparr>tasks = [HasPut, Todo (''e'', ''a b'', ''b c''), Todo (''e'', ''a'', ''c''), HasPut],
            queue = [[(''a b c'', {[KInt 10, KInt 1, KInt 10, KInt 5]})]],
            all_covered_regions =
              [(''a b c'', {[KInt 10, KInt 1, KInt 10, KInt 5], [KInt 20, KInt 3, KInt 20, KInt 9]})],
            place = Polling\<rparr> = Some s'
       \<and> queue s' = []
       \<and> map_of (all_covered_regions s') = [''a b c'' \<mapsto> {[KInt 10, KInt 1, KInt 10, KInt 5]}]
       \<and> fst ` set (all_covered_regions s') = {''a b c''}"
  using receive_replaces_entry
          [where s = "\<lparr>tasks = [HasPut, Todo (''e'', ''a b'', ''b c''), Todo (''e'', ''a'', ''c''), HasPut],
                          queue = [[(''a b c'', {[KInt 10, KInt 1, KInt 10, KInt 5]})]],
                          all_covered_regions =
                            [(''a b c'', {[KInt 10, KInt 1, KInt 10, KInt 5],
                                          [KInt 20, KInt 3, KInt 20, KInt 9]})],
                          place = Polling\<rparr>"
             and k = "''a b c''" and regions = "{[KInt 10, KInt 1, KInt 10, KInt 5]}"
             and rest = "[]" and work = sample_worker and pool = 4]
  by simp

lemma measure_trials_nil:
  "measure_trials loads env fuzzer benchmark [] st = Inr st"
  by simp

text \<open>
  C9. A call of \<^verbatim>\<open>get_covered_region\<close> that returns has put one item on the queue,
  after the items that were there: a mapping with the one key
  \<^verbatim>\<open>get_fuzzer_benchmark_key(fuzzer, benchmark)\<close>. With no trial id for the pair the
  call does return, and the value of the key is the empty set.
\<close>

theorem get_covered_region_puts_one_item:
  "(get_covered_region loads env db fs experiment fuzzer benchmark q0 = Inr (q', fs') \<longrightarrow>
      (\<exists>regions. q' = q0 @ [[(get_fuzzer_benchmark_key fuzzer benchmark, regions)]]))
   \<and> (get_trial_ids db experiment fuzzer benchmark = [] \<longrightarrow>
      get_covered_region loads env db fs experiment fuzzer benchmark q0
        = Inr (q0 @ [[(get_fuzzer_benchmark_key fuzzer benchmark, {})]], fs))"
proof (rule conjI; rule impI)
  assume a: "get_covered_region loads env db fs experiment fuzzer benchmark q0 = Inr (q', fs')"
  show "\<exists>regions. q' = q0 @ [[(get_fuzzer_benchmark_key fuzzer benchmark, regions)]]"
  proof (cases "measure_trials loads env fuzzer benchmark
                  (get_trial_ids db experiment fuzzer benchmark) ({}, fs)")
    case (Inl e)
    with a show ?thesis by (simp add: get_covered_region_def)
  next
    case (Inr st)
    with a show ?thesis by (cases st) (auto simp: get_covered_region_def)
  qed
next
  assume "get_trial_ids db experiment fuzzer benchmark = []"
  then show "get_covered_region loads env db fs experiment fuzzer benchmark q0
        = Inr (q0 @ [[(get_fuzzer_benchmark_key fuzzer benchmark, {})]], fs)"
    by (simp add: get_covered_region_def)
qed

lemma sample_trial_ids:
  "get_trial_ids sample_db ''e'' ''afl'' ''b1'' = [1, 2]"
  "get_trial_ids sample_db ''e'' ''libfuzzer'' ''b1'' = []"
  by (simp_all add: get_trial_ids_def sample_db_def)

lemma sample_worker_afl:
  "worker sample_loads sample_env sample_db (\<lambda>path. Absent) (''e'', ''afl'', ''b1'') []
   = Inr [[(''afl b1'', {[KInt 10, KInt 1, KInt 10, KInt 5], [KInt 20, KInt 3, KInt 20, KInt 9]})]]"
  by code_simp

theorem get_covered_region_puts_one_item_witness:
  "(\<exists>regions fs'. get_covered_region sample_loads sample_env sample_db (\<lambda>path. Absent)
        ''e'' ''afl'' ''b1'' [] = Inr ([[(''afl b1'', regions)]], fs'))
   \<and> get_covered_region sample_loads sample_env sample_db (\<lambda>path. Absent)
        ''e'' ''libfuzzer'' ''b1'' [] = Inr ([[(''libfuzzer b1'', {})]], \<lambda>path. Absent)"
proof -
  obtain q' fs' where r: "get_covered_region sample_loads sample_env sample_db (\<lambda>path. Absent)
        ''e'' ''afl'' ''b1'' [] = Inr (q', fs')"
    using sample_worker_afl by (auto simp: worker_def split: sum.splits)
  show ?thesis
    using get_covered_region_puts_one_item
            [of sample_loads sample_env sample_db "\<lambda>path. Absent" "''e''" "''afl''" "''b1''" "[]" q' fs']
          get_covered_region_puts_one_item
            [of sample_loads sample_env sample_db "\<lambda>path. Absent" "''e''" "''libfuzzer''" "''b1''" "[]"]
          r sample_trial_ids
    by (auto simp: get_fuzzer_benchmark_key_def)
qed

subsection \<open>The states a run reaches\<close>

lemma produced_tasks:
  "tasks s' = tasks s \<Longrightarrow> produced A s' = produced A s"
  by (simp add: produced_def)

lemma produced_put:
  assumes "i < length A" "length (tasks s) = length A" "tasks s ! i = Todo (A ! i)"
    and "tasks s' = (tasks s)[i := HasPut]"
  shows "produced A s' = insert i (produced A s)"
  using assms by (auto simp: produced_def nth_list_update)

lemma produced_finish:
  assumes "i < length A" "length (tasks s) = length A" "tasks s ! i = HasPut"
    and "tasks s' = (tasks s)[i := Done]"
  shows "produced A s' = produced A s"
  using assms by (auto simp: produced_def nth_list_update)

lemma ready_nth: "ready s \<Longrightarrow> i < length (tasks s) \<Longrightarrow> tasks s ! i = Done"
  by (simp add: ready_def list_all_length)

lemma task_forms_update:
  assumes "\<forall>j<length A. tasks s ! j = Todo (A ! j) \<or> tasks s ! j = HasPut \<or> tasks s ! j = Done"
    and "length (tasks s) = length A" and "tasks s' = (tasks s)[i := t]"
    and "t = HasPut \<or> t = Done"
  shows "\<forall>j<length A. tasks s' ! j = Todo (A ! j) \<or> tasks s' ! j = HasPut \<or> tasks s' ! j = Done"
proof (intro allI impI)
  fix j assume j: "j < length A"
  show "tasks s' ! j = Todo (A ! j) \<or> tasks s' ! j = HasPut \<or> tasks s' ! j = Done"
  proof (cases "j = i")
    case True
    with j assms(2,3,4) show ?thesis by auto
  next
    case False
    with j assms(1,3) show ?thesis by simp
  qed
qed

lemma ready_tasks: "tasks s' = tasks s \<Longrightarrow> ready s' = ready s"
  by (simp add: ready_def)

lemma engine_inv_start: "engine_inv key val A (start A)"
  by (simp add: engine_inv_def start_def produced_def)

lemma engine_inv_put:
  assumes inv: "engine_inv key val A s"
    and w: "\<forall>a \<in> set A. \<forall>q0. work a q0 = Inr (q0 @ [[(key a, val a)]])"
    and st: "step work pool (Put i) s = Some s'"
  shows "engine_inv key val A s'"
proof -
  from st have i: "i < length (tasks s)" by (simp split: if_splits)
  from inv have len: "length (tasks s) = length A" by (simp add: engine_inv_def)
  from st i obtain args where todo: "tasks s ! i = Todo args"
    by (auto split: task.splits)
  from inv i len todo have args: "args = A ! i" by (auto simp: engine_inv_def)
  from i len have "A ! i \<in> set A" by simp
  with w have out: "work (A ! i) (queue s) = Inr (queue s @ [[(key (A ! i), val (A ! i))]])"
    by blast
  from st i todo args out
  have s': "s' = s\<lparr>tasks := (tasks s)[i := HasPut],
                    queue := queue s @ [[(key (A ! i), val (A ! i))]]\<rparr>"
    by (simp split: if_splits)
  have p: "produced A s' = insert i (produced A s)"
    using i len todo args s' by (intro produced_put) simp_all
  have notready: "\<not> ready s" using ready_nth [of s i] i todo by auto
  show ?thesis
    unfolding engine_inv_def
  proof (intro conjI)
    show "length (tasks s') = length A" using len s' by simp
    show "\<forall>j<length A. tasks s' ! j = Todo (A ! j) \<or> tasks s' ! j = HasPut \<or> tasks s' ! j = Done"
      using inv len s' by (intro task_forms_update [of A s s' i HasPut]) (simp_all add: engine_inv_def)
    show "set (queue s') \<subseteq> (\<lambda>i. [(key (A ! i), val (A ! i))]) ` produced A s'"
      using inv s' p by (auto simp: engine_inv_def)
    show "set (all_covered_regions s') \<subseteq> (\<lambda>i. (key (A ! i), val (A ! i))) ` produced A s'"
      using inv s' p by (auto simp: engine_inv_def)
    show "\<forall>i \<in> produced A s'. [(key (A ! i), val (A ! i))] \<in> set (queue s')
                               \<or> key (A ! i) \<in> fst ` set (all_covered_regions s')"
      using inv s' p by (auto simp: engine_inv_def)
    show "distinct (map fst (all_covered_regions s'))"
      using inv s' by (simp add: engine_inv_def)
    show "place s' = Exited \<longrightarrow> ready s'"
      using inv s' notready by (simp add: engine_inv_def)
  qed
qed

lemma engine_inv_finish:
  assumes inv: "engine_inv key val A s"
    and w: "\<forall>a \<in> set A. \<forall>q0. work a q0 = Inr (q0 @ [[(key a, val a)]])"
    and st: "step work pool (Finish i) s = Some s'"
  shows "engine_inv key val A s'"
proof -
  from st have i: "i < length (tasks s)" by (simp split: if_splits)
  from inv have len: "length (tasks s) = length A" by (simp add: engine_inv_def)
  from i len have "A ! i \<in> set A" by simp
  with w have out: "work (A ! i) (queue s) = Inr (queue s @ [[(key (A ! i), val (A ! i))]])"
    by blast
  from inv i len have "tasks s ! i = Todo (A ! i) \<or> tasks s ! i = HasPut \<or> tasks s ! i = Done"
    by (simp add: engine_inv_def)
  with st i out have hp: "tasks s ! i = HasPut" by auto
  with st i have s': "s' = s\<lparr>tasks := (tasks s)[i := Done]\<rparr>" by simp
  have p: "produced A s' = produced A s"
    using i len hp s' by (intro produced_finish [of i]) simp_all
  have notready: "\<not> ready s" using ready_nth [of s i] i hp by auto
  show ?thesis
    unfolding engine_inv_def
  proof (intro conjI)
    show "length (tasks s') = length A" using len s' by simp
    show "\<forall>j<length A. tasks s' ! j = Todo (A ! j) \<or> tasks s' ! j = HasPut \<or> tasks s' ! j = Done"
      using inv len s' by (intro task_forms_update [of A s s' i Done]) (simp_all add: engine_inv_def)
    show "set (queue s') \<subseteq> (\<lambda>i. [(key (A ! i), val (A ! i))]) ` produced A s'"
      using inv s' p by (simp add: engine_inv_def)
    show "set (all_covered_regions s') \<subseteq> (\<lambda>i. (key (A ! i), val (A ! i))) ` produced A s'"
      using inv s' p by (simp add: engine_inv_def)
    show "\<forall>i \<in> produced A s'. [(key (A ! i), val (A ! i))] \<in> set (queue s')
                               \<or> key (A ! i) \<in> fst ` set (all_covered_regions s')"
      using inv s' p by (simp add: engine_inv_def)
    show "distinct (map fst (all_covered_regions s'))"
      using inv s' by (simp add: engine_inv_def)
    show "place s' = Exited \<longrightarrow> ready s'"
      using inv s' notready by (simp add: engine_inv_def)
  qed
qed

lemma engine_inv_get:
  assumes inv: "engine_inv key val A s"
    and st: "step work pool Get s = Some s'"
  shows "engine_inv key val A s'"
proof (cases "queue s")
  case Nil
  with st have s': "s' = s\<lparr>place := TimedOut\<rparr>" by (simp split: if_splits)
  then have "produced A s' = produced A s" by (intro produced_tasks) simp
  with inv s' show ?thesis by (simp add: engine_inv_def)
next
  case (Cons item rest)
  with st have polling: "place s = Polling"
    and s': "s' = s\<lparr>queue := rest,
                     all_covered_regions := dict_update (all_covered_regions s) item\<rparr>"
    by (simp_all split: if_splits)
  have p: "produced A s' = produced A s" using s' by (intro produced_tasks) simp
  from inv Cons obtain j where j: "j \<in> produced A s"
    and item: "item = [(key (A ! j), val (A ! j))]"
    by (auto simp: engine_inv_def)
  from s' item have all': "all_covered_regions s'
      = dict_set (all_covered_regions s) (key (A ! j)) (val (A ! j))" by simp
  show ?thesis
    unfolding engine_inv_def
  proof (intro conjI)
    show "length (tasks s') = length A" using inv s' by (simp add: engine_inv_def)
    show "\<forall>j<length A. tasks s' ! j = Todo (A ! j) \<or> tasks s' ! j = HasPut \<or> tasks s' ! j = Done"
      using inv s' by (simp add: engine_inv_def)
    show "set (queue s') \<subseteq> (\<lambda>i. [(key (A ! i), val (A ! i))]) ` produced A s'"
      using inv s' p Cons by (auto simp: engine_inv_def)
    show "set (all_covered_regions s') \<subseteq> (\<lambda>i. (key (A ! i), val (A ! i))) ` produced A s'"
    proof
      fix e assume "e \<in> set (all_covered_regions s')"
      then have "e = (key (A ! j), val (A ! j)) \<or> e \<in> set (all_covered_regions s)"
        using dict_set_entries [of "all_covered_regions s" "key (A ! j)" "val (A ! j)"] all'
        by auto
      then show "e \<in> (\<lambda>i. (key (A ! i), val (A ! i))) ` produced A s'"
        using inv j p by (auto simp: engine_inv_def)
    qed
    show "\<forall>i \<in> produced A s'. [(key (A ! i), val (A ! i))] \<in> set (queue s')
                               \<or> key (A ! i) \<in> fst ` set (all_covered_regions s')"
    proof
      fix i assume "i \<in> produced A s'"
      with p have "i \<in> produced A s" by simp
      with inv have "[(key (A ! i), val (A ! i))] \<in> set (queue s)
          \<or> key (A ! i) \<in> fst ` set (all_covered_regions s)"
        by (simp add: engine_inv_def)
      then have "[(key (A ! i), val (A ! i))] = item \<or> [(key (A ! i), val (A ! i))] \<in> set rest
          \<or> key (A ! i) \<in> fst ` set (all_covered_regions s)"
        using Cons by auto
      then show "[(key (A ! i), val (A ! i))] \<in> set (queue s')
          \<or> key (A ! i) \<in> fst ` set (all_covered_regions s')"
        using item s' all' by (auto simp: dict_set_keys)
    qed
    show "distinct (map fst (all_covered_regions s'))"
      using inv all' by (simp add: engine_inv_def distinct_dict_set)
    show "place s' = Exited \<longrightarrow> ready s'"
      using polling s' by simp
  qed
qed

lemma engine_inv_ready:
  assumes inv: "engine_inv key val A s"
    and st: "step work pool Ready s = Some s'"
  shows "engine_inv key val A s'"
proof -
  from st have s': "s' = s\<lparr>place := (if ready s then Exited else Polling)\<rparr>"
    by (simp split: if_splits)
  then have t: "tasks s' = tasks s" by simp
  have "produced A s' = produced A s" using t by (rule produced_tasks)
  moreover have "ready s' = ready s" using t by (rule ready_tasks)
  moreover have "place s' = Exited \<longrightarrow> ready s" using s' by (simp split: if_splits)
  moreover have "queue s' = queue s" "all_covered_regions s' = all_covered_regions s"
    using s' by simp_all
  ultimately show ?thesis using inv t unfolding engine_inv_def by simp
qed

lemma engine_inv_step:
  assumes "engine_inv key val A s"
    and "\<forall>a \<in> set A. \<forall>q0. work a q0 = Inr (q0 @ [[(key a, val a)]])"
    and "step work pool ev s = Some s'"
  shows "engine_inv key val A s'"
proof (cases ev)
  case (Put i)
  with assms show ?thesis by (blast intro: engine_inv_put)
next
  case (Finish i)
  with assms show ?thesis by (blast intro: engine_inv_finish)
next
  case Get
  with assms show ?thesis by (blast intro: engine_inv_get)
next
  case Ready
  with assms show ?thesis by (blast intro: engine_inv_ready)
qed

lemma engine_inv_run:
  assumes "\<forall>a \<in> set A. \<forall>q0. work a q0 = Inr (q0 @ [[(key a, val a)]])"
  shows "engine_inv key val A s \<Longrightarrow> run work pool evs s = Some s' \<Longrightarrow> engine_inv key val A s'"
proof (induction evs arbitrary: s)
  case Nil
  then show ?case by simp
next
  case (Cons ev evs)
  then obtain s1 where s1: "step work pool ev s = Some s1" and rest: "run work pool evs s1 = Some s'"
    by (auto split: option.splits)
  from Cons.prems(1) assms s1 have "engine_inv key val A s1" by (rule engine_inv_step)
  then show ?case using rest by (rule Cons.IH)
qed

lemma engine_inv_exit:
  assumes inv: "engine_inv key val A s" and ex: "place s = Exited" and dr: "queue s = []"
  shows "fst ` set (all_covered_regions s) = key ` set A"
    and "set (all_covered_regions s) \<subseteq> (\<lambda>a. (key a, val a)) ` set A"
    and "distinct (map fst (all_covered_regions s))"
proof -
  from inv ex have rd: "ready s" and len: "length (tasks s) = length A"
    by (simp_all add: engine_inv_def)
  have all: "produced A s = {..<length A}"
    using ready_nth [OF rd] len by (auto simp: produced_def)
  from inv have ent: "set (all_covered_regions s) \<subseteq> (\<lambda>i. (key (A ! i), val (A ! i))) ` produced A s"
    by (simp add: engine_inv_def)
  show sub: "set (all_covered_regions s) \<subseteq> (\<lambda>a. (key a, val a)) ` set A"
  proof
    fix e assume "e \<in> set (all_covered_regions s)"
    with ent all obtain i where "i < length A" "e = (key (A ! i), val (A ! i))" by auto
    then show "e \<in> (\<lambda>a. (key a, val a)) ` set A" by (auto intro: nth_mem)
  qed
  show "fst ` set (all_covered_regions s) = key ` set A"
  proof
    show "fst ` set (all_covered_regions s) \<subseteq> key ` set A" using sub by auto
    show "key ` set A \<subseteq> fst ` set (all_covered_regions s)"
    proof
      fix k assume "k \<in> key ` set A"
      then obtain i where i: "i < length A" and k: "k = key (A ! i)"
        by (auto simp: in_set_conv_nth)
      from i all have "i \<in> produced A s" by simp
      with inv dr have "key (A ! i) \<in> fst ` set (all_covered_regions s)"
        unfolding engine_inv_def by fastforce
      with k show "k \<in> fst ` set (all_covered_regions s)" by simp
    qed
  qed
  show "distinct (map fst (all_covered_regions s))" using inv by (simp add: engine_inv_def)
qed

lemma engine_inv_exit_unique:
  assumes inv: "engine_inv key val A s" and ex: "place s = Exited" and dr: "queue s = []"
    and inj: "inj_on key (set A)" and dist: "distinct A"
  shows "length (all_covered_regions s) = length A"
    and "\<forall>a \<in> set A. map_of (all_covered_regions s) (key a) = Some (val a)"
proof -
  note fin = engine_inv_exit [OF inv ex dr]
  have "length (all_covered_regions s) = card (fst ` set (all_covered_regions s))"
    using fin(3) by (metis distinct_card length_map set_map)
  also have "\<dots> = card (key ` set A)" using fin(1) by simp
  also have "\<dots> = card (set A)" using inj by (rule card_image)
  also have "\<dots> = length A" using dist by (rule distinct_card)
  finally show "length (all_covered_regions s) = length A" .
  show "\<forall>a \<in> set A. map_of (all_covered_regions s) (key a) = Some (val a)"
  proof
    fix a assume a: "a \<in> set A"
    with fin(1) obtain v where v: "(key a, v) \<in> set (all_covered_regions s)" by force
    with fin(2) obtain a' where a': "a' \<in> set A" "key a = key a'" "v = val a'" by auto
    with inj a have "a' = a" by (auto dest: inj_onD)
    with a' v have "(key a, val a) \<in> set (all_covered_regions s)" by simp
    with fin(3) show "map_of (all_covered_regions s) (key a) = Some (val a)" by simp
  qed
qed

lemma set_get_covered_region_args:
  "set (get_covered_region_args experiment fuzzers benchmarks)
   = {(experiment, f, b) | f b. f \<in> set fuzzers \<and> b \<in> set benchmarks}"
  by (auto simp: get_covered_region_args_def)

lemma length_get_covered_region_args:
  "length (get_covered_region_args experiment fuzzers benchmarks)
   = length fuzzers * length benchmarks"
  by (induction fuzzers) (simp_all add: get_covered_region_args_def)

lemma distinct_get_covered_region_args:
  assumes "distinct fuzzers" "distinct benchmarks"
  shows "distinct (get_covered_region_args experiment fuzzers benchmarks)"
proof (cases benchmarks)
  case Nil
  have "distinct (concat (map (\<lambda>fuzzer. ([] :: (string \<times> string \<times> string) list)) fuzzers))"
    by (induction fuzzers) simp_all
  with Nil show ?thesis by (simp add: get_covered_region_args_def)
next
  case (Cons b bs)
  show ?thesis
    unfolding get_covered_region_args_def
  proof (rule distinct_concat)
    show "distinct (map (\<lambda>fuzzer. map (\<lambda>benchmark. (experiment, fuzzer, benchmark)) benchmarks) fuzzers)"
      using assms(1) Cons by (auto simp: distinct_map inj_on_def)
    show "\<And>ys. ys \<in> set (map (\<lambda>fuzzer. map (\<lambda>benchmark. (experiment, fuzzer, benchmark)) benchmarks) fuzzers)
          \<Longrightarrow> distinct ys"
      using assms(2) by (auto simp: distinct_map inj_on_def)
    show "\<And>ys zs. ys \<in> set (map (\<lambda>fuzzer. map (\<lambda>benchmark. (experiment, fuzzer, benchmark)) benchmarks) fuzzers)
          \<Longrightarrow> zs \<in> set (map (\<lambda>fuzzer. map (\<lambda>benchmark. (experiment, fuzzer, benchmark)) benchmarks) fuzzers)
          \<Longrightarrow> ys \<noteq> zs \<Longrightarrow> set ys \<inter> set zs = {}"
      by auto
  qed
qed

lemma worker_covered_by:
  assumes "covered_by loads env db fs (experiment, fuzzer, benchmark) = Inr regions"
  shows "worker loads env db fs (experiment, fuzzer, benchmark) q0
         = Inr (q0 @ [[(get_fuzzer_benchmark_key fuzzer benchmark, regions)]])"
proof (cases "measure_trials loads env fuzzer benchmark
                (get_trial_ids db experiment fuzzer benchmark) ({}, fs)")
  case (Inl e)
  with assms show ?thesis by (simp add: covered_by_def)
next
  case (Inr st)
  with assms show ?thesis
    by (cases st) (simp add: covered_by_def worker_def get_covered_region_def)
qed

lemma covered_by_no_trials:
  "get_trial_ids db experiment fuzzer benchmark = [] \<Longrightarrow>
   covered_by loads env db fs (experiment, fuzzer, benchmark) = Inr {}"
  by (simp add: covered_by_def)

lemma key_inj_on_args:
  assumes "\<forall>f \<in> set fuzzers. CHR '' '' \<notin> set f"
  shows "inj_on (\<lambda>(e, f, b). get_fuzzer_benchmark_key f b)
           (set (get_covered_region_args experiment fuzzers benchmarks))"
proof (rule inj_onI)
  fix x y
  assume x: "x \<in> set (get_covered_region_args experiment fuzzers benchmarks)"
    and y: "y \<in> set (get_covered_region_args experiment fuzzers benchmarks)"
    and eq: "(case x of (e, f, b) \<Rightarrow> get_fuzzer_benchmark_key f b)
           = (case y of (e, f, b) \<Rightarrow> get_fuzzer_benchmark_key f b)"
  from x obtain f1 b1 where x': "x = (experiment, f1, b1)" "f1 \<in> set fuzzers"
    by (auto simp: set_get_covered_region_args)
  from y obtain f2 b2 where y': "y = (experiment, f2, b2)" "f2 \<in> set fuzzers"
    by (auto simp: set_get_covered_region_args)
  from eq x' y' have "f1 @ CHR '' '' # b1 = f2 @ CHR '' '' # b2"
    by (simp add: get_fuzzer_benchmark_key_def)
  moreover from assms x' y' have "CHR '' '' \<notin> set f1" "CHR '' '' \<notin> set f2" by auto
  ultimately have "f1 = f2 \<and> b1 = b2" by (intro append_space_inject_left)
  with x' y' show "x = y" by simp
qed

text \<open>
  C5 (as amended). Take a run of \<^verbatim>\<open>get_all_covered_regions\<close> in which the task of
  every pair runs to completion and the loop has left with nothing remaining on the
  queue. Then the keys of the map are exactly the keys of the pairs of fuzzers and
  benchmarks, each key once. When no fuzzer and no benchmark is listed twice and no
  fuzzer name contains a space, the map has one entry for each pair, as many as the
  product of the two lengths, and each pair is mapped to the set its task computed: the
  empty set when the pair has no trial id.
\<close>

theorem get_all_covered_regions_entries:
  assumes config: "map_of experiment_config ''benchmarks'' = Some bs"
      "map_of experiment_config ''fuzzers'' = Some fz"
      "map_of experiment_config ''experiment'' = Some experiment"
    and complete: "\<forall>f \<in> set (split_comma fz). \<forall>b \<in> set (split_comma bs).
        covered_by loads env db fs (experiment, f, b) = Inr (regions f b)"
    and run: "get_all_covered_regions (worker loads env db fs) pool schedule experiment_config
              = Inr (Some s)"
    and exited: "place s = Exited" and drained: "queue s = []"
  shows "fst ` set (all_covered_regions s)
           = {get_fuzzer_benchmark_key f b | f b. f \<in> set (split_comma fz) \<and> b \<in> set (split_comma bs)}
       \<and> distinct (map fst (all_covered_regions s))
       \<and> (distinct (split_comma fz) \<and> distinct (split_comma bs)
            \<and> (\<forall>f \<in> set (split_comma fz). CHR '' '' \<notin> set f) \<longrightarrow>
          length (all_covered_regions s) = length (split_comma fz) * length (split_comma bs)
          \<and> (\<forall>f \<in> set (split_comma fz). \<forall>b \<in> set (split_comma bs).
                map_of (all_covered_regions s) (get_fuzzer_benchmark_key f b) = Some (regions f b)
                \<and> (get_trial_ids db experiment f b = [] \<longrightarrow> regions f b = {})))"
proof -
  define A where "A = get_covered_region_args experiment (split_comma fz) (split_comma bs)"
  define key :: "string \<times> string \<times> string \<Rightarrow> string"
    where "key = (\<lambda>(e, f, b). get_fuzzer_benchmark_key f b)"
  define val :: "string \<times> string \<times> string \<Rightarrow> region set"
    where "val = (\<lambda>(e, f, b). regions f b)"
  have setA: "set A = {(experiment, f, b) | f b. f \<in> set (split_comma fz) \<and> b \<in> set (split_comma bs)}"
    by (simp add: A_def set_get_covered_region_args)
  have w: "\<forall>a \<in> set A. \<forall>q0. worker loads env db fs a q0 = Inr (q0 @ [[(key a, val a)]])"
    using complete by (auto simp: setA key_def val_def intro: worker_covered_by)
  from run config have r: "run (worker loads env db fs) pool schedule (start A) = Some s"
    by (simp add: get_all_covered_regions_def dict_get_def A_def)
  have inv: "engine_inv key val A s"
    using w engine_inv_start r by (rule engine_inv_run)
  note fin = engine_inv_exit [OF inv exited drained]
  have keys: "key ` set A
      = {get_fuzzer_benchmark_key f b | f b. f \<in> set (split_comma fz) \<and> b \<in> set (split_comma bs)}"
    unfolding setA key_def by (auto simp: image_iff) blast
  have unique: "length (all_covered_regions s) = length (split_comma fz) * length (split_comma bs)
      \<and> (\<forall>f \<in> set (split_comma fz). \<forall>b \<in> set (split_comma bs).
            map_of (all_covered_regions s) (get_fuzzer_benchmark_key f b) = Some (regions f b)
            \<and> (get_trial_ids db experiment f b = [] \<longrightarrow> regions f b = {}))"
    if d: "distinct (split_comma fz)" "distinct (split_comma bs)"
      and sp: "\<forall>f \<in> set (split_comma fz). CHR '' '' \<notin> set f"
  proof -
    have inj: "inj_on key (set A)"
      unfolding key_def A_def using sp by (rule key_inj_on_args)
    have dist: "distinct A"
      unfolding A_def using d by (rule distinct_get_covered_region_args)
    note u = engine_inv_exit_unique [OF inv exited drained inj dist]
    have "length (all_covered_regions s) = length (split_comma fz) * length (split_comma bs)"
      using u(1) by (simp add: A_def length_get_covered_region_args)
    moreover have "map_of (all_covered_regions s) (get_fuzzer_benchmark_key f b) = Some (regions f b)
        \<and> (get_trial_ids db experiment f b = [] \<longrightarrow> regions f b = {})"
      if fb: "f \<in> set (split_comma fz)" "b \<in> set (split_comma bs)" for f b
    proof -
      from fb have "(experiment, f, b) \<in> set A" by (simp add: setA)
      with u(2) have "map_of (all_covered_regions s) (key (experiment, f, b))
          = Some (val (experiment, f, b))" by blast
      then have m: "map_of (all_covered_regions s) (get_fuzzer_benchmark_key f b) = Some (regions f b)"
        by (simp add: key_def val_def)
      have "regions f b = {}" if "get_trial_ids db experiment f b = []"
        using covered_by_no_trials [OF that, of loads env fs] complete fb by simp
      with m show ?thesis by simp
    qed
    ultimately show ?thesis by blast
  qed
  from fin(1) keys fin(3) unique show ?thesis by simp
qed

subsection \<open>When the loop leaves\<close>

lemma exited_ready_step:
  assumes "place s = Exited \<longrightarrow> ready s" and "step work pool ev s = Some s'"
  shows "place s' = Exited \<longrightarrow> ready s'"
proof (cases ev)
  case (Put i)
  with assms(2) obtain args where "i < length (tasks s)" "tasks s ! i = Todo args"
    and "place s' = place s"
    by (auto split: if_splits task.splits sum.splits)
  then have "\<not> ready s" "place s' = place s" using ready_nth [of s i] by auto
  with assms(1) show ?thesis by simp
next
  case (Finish i)
  with assms(2) have "i < length (tasks s)" "tasks s ! i \<noteq> Done" "place s' = place s"
    by (auto split: if_splits task.splits sum.splits)
  then have "\<not> ready s" "place s' = place s" using ready_nth [of s i] by auto
  with assms(1) show ?thesis by simp
next
  case Get
  with assms(2) show ?thesis by (auto split: if_splits list.splits)
next
  case Ready
  with assms(2) show ?thesis by (auto simp: ready_def split: if_splits)
qed

lemma exited_ready_run:
  "place s = Exited \<longrightarrow> ready s \<Longrightarrow> run work pool evs s = Some s' \<Longrightarrow> place s' = Exited \<longrightarrow> ready s'"
proof (induction evs arbitrary: s)
  case Nil
  then show ?case by simp
next
  case (Cons ev evs)
  then obtain s1 where s1: "step work pool ev s = Some s1" and rest: "run work pool evs s1 = Some s'"
    by (auto split: option.splits)
  from Cons.prems(1) s1 have "place s1 = Exited \<longrightarrow> ready s1" by (rule exited_ready_step)
  then show ?case using rest by (rule Cons.IH)
qed

lemma drained_run_exits:
  assumes "ready s" "place s = Polling"
  shows "\<exists>s'. run work pool (replicate (length (queue s)) Get @ [Get, Ready]) s = Some s'
              \<and> place s' = Exited \<and> queue s' = []"
  using assms
proof (induction "queue s" arbitrary: s)
  case Nil
  then show ?case by (simp add: ready_def)
next
  case (Cons item rest)
  let ?s1 = "s\<lparr>queue := rest, all_covered_regions := dict_update (all_covered_regions s) item\<rparr>"
  have st: "step work pool Get s = Some ?s1"
    using Cons.hyps(2) [symmetric] Cons.prems(2) by simp
  have "rest = queue ?s1" "ready ?s1" "place ?s1 = Polling"
    using Cons.prems by (simp_all add: ready_def)
  from Cons.hyps(1) [OF this]
  obtain s' where "run work pool (replicate (length rest) Get @ [Get, Ready]) ?s1 = Some s'"
    and "place s' = Exited" "queue s' = []" by auto
  with st Cons.hyps(2) [symmetric] show ?case by simp
qed


subsection \<open>Runs of the sample experiment\<close>

lemma sample_complete:
  "covered_by sample_loads sample_env sample_db no_files (''e'', ''afl'', ''b1'') = Inr sample_covered"
  "covered_by sample_loads sample_env sample_db no_files (''e'', ''libfuzzer'', ''b1'') = Inr {}"
  by code_simp+

lemma spaces_complete:
  "covered_by sample_loads sample_env sample_db no_files (''e'', ''a b'', ''c'') = Inr sample_covered"
  "covered_by sample_loads sample_env sample_db no_files (''e'', ''a b'', ''b c'') = Inr {}"
  "covered_by sample_loads sample_env sample_db no_files (''e'', ''a'', ''c'') = Inr {}"
  "covered_by sample_loads sample_env sample_db no_files (''e'', ''a'', ''b c'')
     = Inr {[KInt 10, KInt 1, KInt 10, KInt 5]}"
  by code_simp+

lemma sample_worker_results:
  "sample_worker (''e'', ''afl'', ''b1'') q0 = Inr (q0 @ [[(''afl b1'', sample_covered)]])"
  "sample_worker (''e'', ''libfuzzer'', ''b1'') q0 = Inr (q0 @ [[(''libfuzzer b1'', {})]])"
  "sample_worker (''e'', ''a b'', ''c'') q0 = Inr (q0 @ [[(''a b c'', sample_covered)]])"
  "sample_worker (''e'', ''a b'', ''b c'') q0 = Inr (q0 @ [[(''a b b c'', {})]])"
  "sample_worker (''e'', ''a'', ''c'') q0 = Inr (q0 @ [[(''a c'', {})]])"
  "sample_worker (''e'', ''a'', ''b c'') q0
     = Inr (q0 @ [[(''a b c'', {[KInt 10, KInt 1, KInt 10, KInt 5]})]])"
  unfolding sample_worker_def
  using worker_covered_by [OF sample_complete(1), of q0] worker_covered_by [OF sample_complete(2), of q0]
    worker_covered_by [OF spaces_complete(1), of q0] worker_covered_by [OF spaces_complete(2), of q0]
    worker_covered_by [OF spaces_complete(3), of q0] worker_covered_by [OF spaces_complete(4), of q0]
  by (simp_all add: get_fuzzer_benchmark_key_def)

lemma sample_split:
  "split_comma ''afl,libfuzzer'' = [''afl'', ''libfuzzer'']" "split_comma ''b1'' = [''b1'']"
  "split_comma ''a b,a'' = [''a b'', ''a'']" "split_comma ''c,b c'' = [''c'', ''b c'']"
  by simp_all

lemma sample_start:
  "get_all_covered_regions work pool schedule sample_config
   = Inr (run work pool schedule (start [(''e'', ''afl'', ''b1''), (''e'', ''libfuzzer'', ''b1'')]))"
  "get_all_covered_regions work pool schedule spaces_config
   = Inr (run work pool schedule (start [(''e'', ''a b'', ''c''), (''e'', ''a b'', ''b c''),
                                    (''e'', ''a'', ''c''), (''e'', ''a'', ''b c'')]))"
  by (simp_all add: get_all_covered_regions_def dict_get_def sample_config_def spaces_config_def
      get_covered_region_args_def sample_split)

lemma sample_run:
  "get_all_covered_regions sample_worker 2
     [Put 1, Get, Put 0, Finish 0, Get, Get, Ready, Finish 1, Get, Ready] sample_config
   = Inr (Some sample_final)"
  by (simp add: sample_start start_def runnable_def chunksize_def chunk_start_def sample_worker_results sample_final_def ready_def)

theorem get_all_covered_regions_entries_witness:
  "get_all_covered_regions sample_worker 2
     [Put 1, Get, Put 0, Finish 0, Get, Get, Ready, Finish 1, Get, Ready] sample_config
     = Inr (Some sample_final)
   \<and> fst ` set (all_covered_regions sample_final) = {''afl b1'', ''libfuzzer b1''}
   \<and> length (all_covered_regions sample_final) = 2
   \<and> map_of (all_covered_regions sample_final) ''afl b1'' = Some sample_covered
   \<and> map_of (all_covered_regions sample_final) ''libfuzzer b1'' = Some {}"
proof -
  have c: "\<forall>f \<in> set (split_comma ''afl,libfuzzer''). \<forall>b \<in> set (split_comma ''b1'').
      covered_by sample_loads sample_env sample_db no_files (''e'', f, b)
        = Inr (sample_regions_of f b)"
    by (simp add: sample_split sample_complete sample_regions_of_def)
  have e: "place sample_final = Exited" "queue sample_final = []"
    by (simp_all add: sample_final_def)
  have m: "map_of sample_config ''benchmarks'' = Some ''b1''"
    "map_of sample_config ''fuzzers'' = Some ''afl,libfuzzer''"
    "map_of sample_config ''experiment'' = Some ''e''"
    by (simp_all add: sample_config_def)
  have r: "get_all_covered_regions (worker sample_loads sample_env sample_db no_files) 2
     [Put 1, Get, Put 0, Finish 0, Get, Get, Ready, Finish 1, Get, Ready] sample_config
     = Inr (Some sample_final)"
    using sample_run by (simp add: sample_worker_def)
  have d: "distinct (split_comma ''afl,libfuzzer'') \<and> distinct (split_comma ''b1'')
      \<and> (\<forall>f \<in> set (split_comma ''afl,libfuzzer''). CHR '' '' \<notin> set f)"
    by (simp add: sample_split)
  have k: "get_fuzzer_benchmark_key ''afl'' ''b1'' = ''afl b1''"
    "get_fuzzer_benchmark_key ''libfuzzer'' ''b1'' = ''libfuzzer b1''"
    by (simp_all add: get_fuzzer_benchmark_key_def)
  from get_all_covered_regions_entries [OF m c r e] d
  have "length (all_covered_regions sample_final)
          = length (split_comma ''afl,libfuzzer'') * length (split_comma ''b1'')"
    and "\<forall>f \<in> set (split_comma ''afl,libfuzzer''). \<forall>b \<in> set (split_comma ''b1'').
          map_of (all_covered_regions sample_final) (get_fuzzer_benchmark_key f b)
            = Some (sample_regions_of f b)"
    by blast+
  then have "length (all_covered_regions sample_final) = 2"
    and "map_of (all_covered_regions sample_final) ''afl b1'' = Some sample_covered"
    and "map_of (all_covered_regions sample_final) ''libfuzzer b1'' = Some {}"
    using k by (simp_all add: sample_split sample_regions_of_def)
  moreover have "fst ` set (all_covered_regions sample_final) = {''afl b1'', ''libfuzzer b1''}"
    by (auto simp: sample_final_def)
  ultimately show ?thesis using sample_run by simp
qed

text \<open>
  C5 (as stated) fails. The fuzzers \<open>a b\<close> and \<open>a\<close> with the benchmarks \<open>c\<close> and
  \<open>b c\<close> make four pairs, every task runs to completion and every result is received,
  and the map has three entries: the pairs (\<open>a b\<close>, \<open>c\<close>) and (\<open>a\<close>, \<open>b c\<close>) share
  the key \<open>a b c\<close>.
\<close>

theorem get_all_covered_regions_shared_key:
  "get_all_covered_regions sample_worker 4
     [Put 0, Put 1, Put 2, Put 3, Get, Get, Get, Get,
      Finish 0, Finish 1, Finish 2, Finish 3, Get, Ready] spaces_config
   = Inr (Some \<lparr>tasks = [Done, Done, Done, Done], queue = [],
                all_covered_regions =
                  [(''a b c'', {[KInt 10, KInt 1, KInt 10, KInt 5]}), (''a b b c'', {}), (''a c'', {})],
                place = Exited\<rparr>)
   \<and> length (get_covered_region_args ''e'' (split_comma ''a b,a'') (split_comma ''c,b c'')) = 4
   \<and> distinct (get_covered_region_args ''e'' (split_comma ''a b,a'') (split_comma ''c,b c''))"
  by (simp add: sample_start start_def runnable_def chunksize_def chunk_start_def sample_worker_results ready_def sample_split
      get_covered_region_args_def)

text \<open>
  C3, at a schedule of the sample experiment. The result of \<open>libfuzzer\<close> arrives and is
  merged; \<^verbatim>\<open>q.get\<close> then times out while the task of \<open>afl\<close> is still measuring;
  before the handler tests \<^verbatim>\<open>result.ready()\<close>, that task puts its result and
  completes. The test succeeds and the loop leaves with the result of \<open>afl\<close> on the
  queue and no entry for it in the map.
\<close>

theorem get_all_covered_regions_leaves_result_queued:
  "get_all_covered_regions sample_worker 2
     [Put 1, Get, Finish 1, Get, Put 0, Finish 0, Ready] sample_config
   = Inr (Some \<lparr>tasks = [Done, Done],
                queue = [[(''afl b1'', {[KInt 10, KInt 1, KInt 10, KInt 5],
                                        [KInt 20, KInt 3, KInt 20, KInt 9]})]],
                all_covered_regions = [(''libfuzzer b1'', {})],
                place = Exited\<rparr>)"
  by (simp add: sample_start start_def runnable_def chunksize_def chunk_start_def sample_worker_results ready_def sample_covered_def)

text \<open>
  C2 (as stated) fails. With the fuzzers \<open>a b\<close> and \<open>a\<close> and the benchmarks \<open>c\<close> and
  \<open>b c\<close>, the first and the last task share the key \<open>a b c\<close>. Once the result of the
  first is merged, the key holds two regions; the merge of the result of the last leaves
  it one.
\<close>

theorem receive_drops_region:
  "get_all_covered_regions sample_worker 4 [Put 0, Get, Put 3] spaces_config
   = Inr (Some \<lparr>tasks = [HasPut, Todo (''e'', ''a b'', ''b c''), Todo (''e'', ''a'', ''c''), HasPut],
                queue = [[(''a b c'', {[KInt 10, KInt 1, KInt 10, KInt 5]})]],
                all_covered_regions =
                  [(''a b c'', {[KInt 10, KInt 1, KInt 10, KInt 5], [KInt 20, KInt 3, KInt 20, KInt 9]})],
                place = Polling\<rparr>)
   \<and> get_all_covered_regions sample_worker 4 [Put 0, Get, Put 3, Get] spaces_config
   = Inr (Some \<lparr>tasks = [HasPut, Todo (''e'', ''a b'', ''b c''), Todo (''e'', ''a'', ''c''), HasPut],
                queue = [],
                all_covered_regions = [(''a b c'', {[KInt 10, KInt 1, KInt 10, KInt 5]})],
                place = Polling\<rparr>)"
  by (simp add: sample_start start_def runnable_def chunksize_def chunk_start_def sample_worker_results sample_covered_def)

section \<open>Properties of the staging\<close>

lemma set_up_loop_none:
  assumes "\<forall>x \<in> set experiment_names. ls (get_benchmark_archive environ x benchmark) \<noteq> 0"
  shows "set_up_loop environ ls raises report_dir benchmark experiment_names
         = (map (\<lambda>x. Ls (get_benchmark_archive environ x benchmark)) experiment_names, None)"
  using assms by (induction experiment_names) simp_all

lemma set_up_loop_first:
  assumes "\<forall>x \<in> set before. ls (get_benchmark_archive environ x benchmark) \<noteq> 0"
    and "ls (get_benchmark_archive environ experiment benchmark) = 0"
    and "\<forall>c. raises c = None"
  shows "set_up_loop environ ls raises report_dir benchmark (before @ experiment # later)
         = (map (\<lambda>x. Ls (get_benchmark_archive environ x benchmark)) before
            @ [Ls (get_benchmark_archive environ experiment benchmark),
               CreateDirectory (path_join report_dir [benchmark]),
               Cp (get_benchmark_archive environ experiment benchmark) (path_join report_dir [benchmark]),
               TarOpen (path_join (path_join report_dir [benchmark]) [get_coverage_archive_name benchmark]),
               ExtractAll (path_join (path_join report_dir [benchmark]) [get_coverage_archive_name benchmark])
                 (path_join report_dir [benchmark]),
               Remove (path_join (path_join report_dir [benchmark]) [get_coverage_archive_name benchmark])],
            None)"
  using assms(1)
proof (induction before)
  case Nil
  show ?case using assms(2,3) by (simp add: Let_def)
next
  case (Cons x before)
  then show ?case by simp
qed

text \<open>
  C8. When some experiment has the archive of the benchmark and no call on the disk
  fails, \<^verbatim>\<open>set_up_coverage_file\<close> asks the store about the experiments in the order
  given up to the first that has it, then creates the report directory of the benchmark,
  copies that archive into it, opens it, extracts it and removes the local copy, and does
  nothing for the experiments after it. When no experiment has the archive it asks about
  each and returns without raising.
\<close>

theorem set_up_coverage_file_first_archive:
  "(experiment_names = before @ experiment # later
      \<and> (\<forall>x \<in> set before. ls (get_benchmark_archive environ x benchmark) \<noteq> 0)
      \<and> ls (get_benchmark_archive environ experiment benchmark) = 0
      \<and> (\<forall>c. raises c = None) \<longrightarrow>
    set_up_coverage_file environ ls raises experiment_names report_dir benchmark
      = (map (\<lambda>x. Ls (get_benchmark_archive environ x benchmark)) before
         @ [Ls (get_benchmark_archive environ experiment benchmark),
            CreateDirectory (path_join report_dir [benchmark]),
            Cp (get_benchmark_archive environ experiment benchmark) (path_join report_dir [benchmark]),
            TarOpen (path_join (path_join report_dir [benchmark]) [get_coverage_archive_name benchmark]),
            ExtractAll (path_join (path_join report_dir [benchmark]) [get_coverage_archive_name benchmark])
              (path_join report_dir [benchmark]),
            Remove (path_join (path_join report_dir [benchmark]) [get_coverage_archive_name benchmark])],
         None))
   \<and> ((\<forall>x \<in> set experiment_names. ls (get_benchmark_archive environ x benchmark) \<noteq> 0) \<longrightarrow>
    set_up_coverage_file environ ls raises experiment_names report_dir benchmark
      = (map (\<lambda>x. Ls (get_benchmark_archive environ x benchmark)) experiment_names, None))"
  by (auto simp: set_up_coverage_file_def set_up_loop_none intro: set_up_loop_first)

lemma sample_archives:
  "get_benchmark_archive [] ''exp1'' ''b1'' = ''gs://fuzzbench-data/exp1/coverage-binaries/coverage-build-b1.tar.gz''"
  "get_benchmark_archive [] ''exp2'' ''b1'' = ''gs://fuzzbench-data/exp2/coverage-binaries/coverage-build-b1.tar.gz''"
  "get_benchmark_archive [] ''exp3'' ''b1'' = ''gs://fuzzbench-data/exp3/coverage-binaries/coverage-build-b1.tar.gz''"
  "get_benchmark_archive [] ''exp1'' ''b2'' = ''gs://fuzzbench-data/exp1/coverage-binaries/coverage-build-b2.tar.gz''"
  "get_benchmark_archive [] ''exp2'' ''b2'' = ''gs://fuzzbench-data/exp2/coverage-binaries/coverage-build-b2.tar.gz''"
  "get_benchmark_archive [] ''exp3'' ''b2'' = ''gs://fuzzbench-data/exp3/coverage-binaries/coverage-build-b2.tar.gz''"
  by (simp_all add: get_benchmark_archive_def get_experiment_filestore_path_def
      get_coverage_archive_name_def path_join_def join2_def)

theorem set_up_coverage_file_first_archive_witness:
  "set_up_coverage_file [] sample_ls never_raises [''exp1'', ''exp2'', ''exp3''] ''/reports'' ''b1''
     = ([Ls ''gs://fuzzbench-data/exp1/coverage-binaries/coverage-build-b1.tar.gz'',
         Ls ''gs://fuzzbench-data/exp2/coverage-binaries/coverage-build-b1.tar.gz'',
         CreateDirectory ''/reports/b1'',
         Cp ''gs://fuzzbench-data/exp2/coverage-binaries/coverage-build-b1.tar.gz'' ''/reports/b1'',
         TarOpen ''/reports/b1/coverage-build-b1.tar.gz'',
         ExtractAll ''/reports/b1/coverage-build-b1.tar.gz'' ''/reports/b1'',
         Remove ''/reports/b1/coverage-build-b1.tar.gz''], None)
   \<and> set_up_coverage_file [] sample_ls never_raises [''exp1'', ''exp2'', ''exp3''] ''/reports'' ''b2''
     = ([Ls ''gs://fuzzbench-data/exp1/coverage-binaries/coverage-build-b2.tar.gz'',
         Ls ''gs://fuzzbench-data/exp2/coverage-binaries/coverage-build-b2.tar.gz'',
         Ls ''gs://fuzzbench-data/exp3/coverage-binaries/coverage-build-b2.tar.gz''], None)"
  using set_up_coverage_file_first_archive
          [of "[''exp1'', ''exp2'', ''exp3'']" "[''exp1'']" "''exp2''" "[''exp3'']" sample_ls "[]" "''b1''"
              never_raises "''/reports''"]
        set_up_coverage_file_first_archive
          [of "[''exp1'', ''exp2'', ''exp3'']" "[]" "''exp1''" "[]" sample_ls "[]" "''b2''"
              never_raises "''/reports''"]
  by (simp add: sample_archives sample_ls_def never_raises_def get_coverage_archive_name_def
      path_join_def join2_def)


section \<open>Properties of the report pipeline\<close>






















end
